theory Spec2Isabelle
  imports Main "HOL-Library.Word" "HOL-Library.List_Lexorder" "HOL-Library.Char_ord" "HOL-Library.AList"
begin

chapter \<open>Definitions\<close>

section \<open>The ledger (cmd/gateway/s3x/gateway-s3x-ledger.go)\<close>

text \<open>
  The ledger functions return a Go \<open>error\<close>. A run-time panic is a result of its own
  kind: \<open>PanicNilPointer\<close> is Go's "invalid memory address or nil pointer dereference",
  \<open>PanicNilMap\<close> is "assignment to entry in nil map". \<open>OtherLedgerError\<close> stands for any
  error that the datastore behind \<open>BucketExists\<close> hands back.
\<close>

datatype ledger_error =
    ErrLedgerBucketDoesNotExist
  | ErrLedgerBucketExists
  | ErrLedgerObjectDoesNotExist
  | ErrInvalidUploadID
  | OtherLedgerError string
  | PanicNilPointer
  | PanicNilMap

record ObjectPartInfo =
  Number :: int
  DataHash :: string

record MultipartUpload =
  Bucket :: string
  Object :: string
  Id :: string
  ObjectParts :: "ObjectPartInfo list"

text \<open>
  \<open>MultipartUploads\<close> is a Go \<open>map[string]*MultipartUpload\<close> (it is made with
  \<open>make(map[string]*MultipartUpload)\<close> and filled with \<open>&MultipartUpload{...}\<close>).
  \<open>None\<close> is the nil map; inside a map, a key that is absent reads as the nil pointer.
  The only values ever stored are pointers to fresh structs, so a present key holds a struct.
\<close>

record Ledger =
  MultipartUploads :: "(string \<rightharpoonup> MultipartUpload) option"

text \<open>
  \<open>ledgerStore.BucketExists\<close> is called by the functions below and defined in another
  file of the package; it is the parameter \<open>bex\<close> of every function that calls it. It
  returns \<open>(bool, error)\<close>: \<open>Inl e\<close> is the error, \<open>Inr b\<close> the answer.
\<close>

type_synonym bucket_exists = "string \<Rightarrow> ledger_error + bool"

text \<open>\<open>m.MultipartUploads[id]\<close>: reading a nil map, or an absent key, gives the nil pointer.\<close>

definition lookupUpload :: "Ledger \<Rightarrow> string \<Rightarrow> MultipartUpload option" where
  "lookupUpload m k = (case MultipartUploads m of None \<Rightarrow> None | Some mp \<Rightarrow> mp k)"

text \<open>
  \<open>multipartExists\<close>: the nil map is refused first; then \<open>m.MultipartUploads[id].Id\<close> reads
  the field \<open>Id\<close> through the pointer found under \<open>id\<close>, which panics when the pointer is nil.
\<close>

definition multipartExists :: "Ledger \<Rightarrow> string \<Rightarrow> ledger_error option" where
  "multipartExists m id' =
     (case MultipartUploads m of
        None \<Rightarrow> Some ErrInvalidUploadID
      | Some mp \<Rightarrow>
          (case mp id' of
             None \<Rightarrow> Some PanicNilPointer
           | Some u \<Rightarrow> if Id u = [] then Some ErrInvalidUploadID else None))"

text \<open>\<open>deleteMultipartID\<close>: Go's \<open>delete\<close> on a nil map does nothing; the result is always nil.\<close>

definition deleteMultipartID :: "Ledger \<Rightarrow> string \<Rightarrow> string \<Rightarrow> ledger_error + Ledger" where
  "deleteMultipartID m bucketName multipartID =
     Inr (case MultipartUploads m of
            None \<Rightarrow> m
          | Some mp \<Rightarrow> m\<lparr>MultipartUploads := Some (mp(multipartID := None))\<rparr>)"

definition AbortMultipartUpload ::
  "bucket_exists \<Rightarrow> Ledger \<Rightarrow> string \<Rightarrow> string \<Rightarrow> ledger_error + Ledger" where
  "AbortMultipartUpload bex ls bucket multipartID =
     (case bex bucket of
        Inl err \<Rightarrow> Inl err
      | Inr ex \<Rightarrow>
          if \<not> ex then Inl ErrLedgerBucketDoesNotExist
          else (case multipartExists ls multipartID of
                  Some err \<Rightarrow> Inl err
                | None \<Rightarrow> deleteMultipartID ls bucket multipartID))"

definition NewMultipartUpload ::
  "bucket_exists \<Rightarrow> Ledger \<Rightarrow> string \<Rightarrow> string \<Rightarrow> string \<Rightarrow> ledger_error + Ledger" where
  "NewMultipartUpload bex ls bucketName objectName multipartID =
     (case bex bucketName of
        Inl err \<Rightarrow> Inl err
      | Inr ex \<Rightarrow>
          if \<not> ex then Inl ErrLedgerBucketDoesNotExist
          else
            (let mp = (case MultipartUploads ls of None \<Rightarrow> Map.empty | Some mp0 \<Rightarrow> mp0)
             in Inr (ls\<lparr>MultipartUploads :=
                        Some (mp(multipartID \<mapsto>
                          \<lparr>Bucket = bucketName, Object = objectName, Id = multipartID,
                           ObjectParts = []\<rparr>))\<rparr>)))"

definition PutObjectPart ::
  "bucket_exists \<Rightarrow> Ledger \<Rightarrow> string \<Rightarrow> string \<Rightarrow> string \<Rightarrow> string \<Rightarrow> int \<Rightarrow> ledger_error + Ledger" where
  "PutObjectPart bex ls bucketName objectName partHash multipartID partNumber =
     (case bex bucketName of
        Inl err \<Rightarrow> Inl err
      | Inr ex \<Rightarrow>
          if \<not> ex then Inl ErrLedgerBucketDoesNotExist
          else (case multipartExists ls multipartID of
                  Some err \<Rightarrow> Inl err
                | None \<Rightarrow>
                    (case lookupUpload ls multipartID of
                       None \<Rightarrow> Inl PanicNilPointer
                     | Some mpart \<Rightarrow>
                         (case MultipartUploads ls of
                            None \<Rightarrow> Inl PanicNilMap
                          | Some mp \<Rightarrow>
                              Inr (ls\<lparr>MultipartUploads :=
                                Some (mp(multipartID \<mapsto>
                                  mpart\<lparr>ObjectParts := ObjectParts mpart @
                                    [\<lparr>Number = partNumber, DataHash = partHash\<rparr>]\<rparr>))\<rparr>)))))"

definition GetObjectParts :: "Ledger \<Rightarrow> string \<Rightarrow> ledger_error + ObjectPartInfo list" where
  "GetObjectParts le id' =
     (case multipartExists le id' of
        Some err \<Rightarrow> Inl err
      | None \<Rightarrow>
          (case lookupUpload le id' of
             None \<Rightarrow> Inl PanicNilPointer
           | Some u \<Rightarrow> Inr (ObjectParts u)))"

definition MultipartIDExists :: "Ledger \<Rightarrow> string \<Rightarrow> ledger_error option" where
  "MultipartIDExists le id' = multipartExists le id'"

text \<open>
  \<open>GetMultipartHashes\<close> checks the session under \<open>multipartID\<close> and then reads
  \<open>ls.l.MultipartUploads[bucket]\<close>: the key of the read is the bucket name.
  \<open>len(mpart.ObjectParts)\<close> goes through that pointer.
\<close>

definition GetMultipartHashes ::
  "bucket_exists \<Rightarrow> Ledger \<Rightarrow> string \<Rightarrow> string \<Rightarrow> ledger_error + string list" where
  "GetMultipartHashes bex ls bucket multipartID =
     (case bex bucket of
        Inl err \<Rightarrow> Inl err
      | Inr ex \<Rightarrow>
          if \<not> ex then Inl ErrLedgerBucketDoesNotExist
          else (case multipartExists ls multipartID of
                  Some err \<Rightarrow> Inl err
                | None \<Rightarrow>
                    (case lookupUpload ls bucket of
                       None \<Rightarrow> Inl PanicNilPointer
                     | Some mpart \<Rightarrow> Inr (map DataHash (ObjectParts mpart)))))"

text \<open>A ledger store that has only the bucket \<open>bkt\<close>, and the ledger before any upload.\<close>

definition only_bkt :: bucket_exists where
  "only_bkt b = Inr (b = ''bkt'')"

definition ledger0 :: Ledger where
  "ledger0 = \<lparr>MultipartUploads = None\<rparr>"

text \<open>Sequencing of calls that return the new ledger or an error.\<close>

definition and_then :: "'e + 'a \<Rightarrow> ('a \<Rightarrow> 'e + 'b) \<Rightarrow> 'e + 'b" where
  "and_then r f = (case r of Inl e \<Rightarrow> Inl e | Inr x \<Rightarrow> f x)"

section \<open>The lifecycle sweeper (startDailyLifecycle)\<close>

text \<open>
  A \<open>time.Time\<close> is the number of nanoseconds since Go's zero time, so that \<open>IsZero\<close> is
  equality with 0 and \<open>After\<close> is \<open>>\<close>. A \<open>time.Duration\<close> is a number of nanoseconds in
  an \<open>int64\<close>; \<open>Time.Sub\<close>, and with it \<open>time.Since\<close>, saturates at the ends of that range.
\<close>

type_synonym go_time = int
type_synonym duration = int

definition Second :: duration where "Second = 1000000000"
definition Minute :: duration where "Minute = 60 * Second"
definition Hour :: duration where "Hour = 60 * Minute"

definition bgLifecycleInterval :: duration where "bgLifecycleInterval = 24 * Hour"
definition bgLifecycleTick :: duration where "bgLifecycleTick = Hour"

definition IsZero :: "go_time \<Rightarrow> bool" where
  "IsZero t = (t = 0)"

definition After :: "go_time \<Rightarrow> go_time \<Rightarrow> bool" where
  "After t u = (t > u)"

definition maxDuration :: duration where "maxDuration = 2 ^ 63 - 1"
definition minDuration :: duration where "minDuration = - (2 ^ 63)"

definition Since :: "go_time \<Rightarrow> go_time \<Rightarrow> duration" where
  "Since now t = (if now - t > maxDuration then maxDuration
                  else if now - t < minDuration then minDuration else now - t)"

record lifecycleOps =
  LastActivity :: go_time

record BgLifecycleOpsStatus =
  LastActivity :: go_time

record BgOpsStatus =
  LifecycleOps :: BgLifecycleOpsStatus

definition getLocalBgLifecycleOpsStatus :: "lifecycleOps \<Rightarrow> BgLifecycleOpsStatus" where
  "getLocalBgLifecycleOpsStatus globalLifecycleOps =
     \<lparr>LastActivity = lifecycleOps.LastActivity globalLifecycleOps\<rparr>"

definition computeLastLifecycleActivity :: "BgOpsStatus list \<Rightarrow> go_time" where
  "computeLastLifecycleActivity status =
     foldl (\<lambda>lastAct st.
              if After (BgLifecycleOpsStatus.LastActivity (LifecycleOps st)) lastAct
              then BgLifecycleOpsStatus.LastActivity (LifecycleOps st) else lastAct)
           0 status"

text \<open>
  What \<open>lifecycleRound\<close> returns: nil, \<open>OperationTimedOut\<close> (the lock was not acquired in
  time) or any other error. The sweep itself works on the object layer, the lock service
  and the event sink; one iteration of the loop sees only its result, which is a field of
  the iteration's environment below.
\<close>

datatype round_error = OperationTimedOut | OtherRoundError string

text \<open>What one iteration does, in order: sleeps, the call of \<open>lifecycleRound\<close>, logging.\<close>

datatype sweeper_event =
    Sleep duration
  | CallLifecycleRound
  | LogIf "round_error option"

text \<open>
  What an iteration of the \<open>for\<close> loop reads from outside: the clock, the process-wide
  \<open>globalLifecycleOps\<close>, \<open>globalIsDistXL\<close>, the peers' answer to \<open>BackgroundOpsStatus\<close>,
  and what \<open>lifecycleRound\<close> returns when it is called.
\<close>

record iteration_env =
  clock :: go_time
  globalLifecycleOps :: lifecycleOps
  globalIsDistXL :: bool
  peerStatus :: "BgOpsStatus list"
  roundResult :: "round_error option"

text \<open>
  One iteration of the loop of \<open>startDailyLifecycle\<close>. The \<open>if\<close> on \<open>lastAct\<close> has the
  sleep as its whole body; the call of \<open>lifecycleRound\<close> follows it in every case. In the
  type switch a nil error takes the \<open>default\<close> branch.
\<close>

definition lifecycleIteration :: "iteration_env \<Rightarrow> sweeper_event list" where
  "lifecycleIteration e =
     (let allLifecycleStatus =
            [\<lparr>LifecycleOps = getLocalBgLifecycleOpsStatus (globalLifecycleOps e)\<rparr>]
            @ (if globalIsDistXL e then peerStatus e else []);
          lastAct = computeLastLifecycleActivity allLifecycleStatus
      in (if \<not> IsZero lastAct \<and> Since (clock e) lastAct < bgLifecycleInterval
          then [Sleep bgLifecycleTick] else [])
         @ [CallLifecycleRound]
         @ (case roundResult e of
              Some OperationTimedOut \<Rightarrow> [Sleep bgLifecycleTick]
            | err \<Rightarrow> [LogIf err, Sleep Minute]))"

text \<open>The loop, over the environments of its successive iterations.\<close>

definition startDailyLifecycle :: "iteration_env list \<Rightarrow> sweeper_event list" where
  "startDailyLifecycle envs = concat (map lifecycleIteration envs)"



section \<open>The object cache (pkg/storage/donut/cache.go)\<close>

subsection \<open>Bytes, strings and the Go library\<close>

type_synonym byte = "8 word"
type_synonym bytes = "byte list"

text \<open>\<open>strings.HasPrefix\<close>.\<close>

definition HasPrefix :: "string \<Rightarrow> string \<Rightarrow> bool" where
  "HasPrefix s p = (take (length p) s = p)"

text \<open>\<open>strings.Contains\<close>: \<open>substr\<close> occurs somewhere in \<open>s\<close>.\<close>

fun Contains :: "string \<Rightarrow> string \<Rightarrow> bool" where
  "Contains [] substr = (substr = [])"
| "Contains (c # cs) substr = (HasPrefix (c # cs) substr \<or> Contains cs substr)"

text \<open>
  \<open>strings.TrimSpace\<close> removes the leading and the trailing white space of a string
  read as UTF-8. The white-space runes are U+0009 to U+000D, U+0020, U+0085, U+00A0,
  U+1680, U+2000 to U+200A, U+2028, U+2029, U+202F, U+205F and U+3000; \<open>isSpace3\<close> and
  \<open>isSpace2\<close> recognise their encodings in three and two bytes.
\<close>

definition isSpace1 :: "char \<Rightarrow> bool" where
  "isSpace1 c = ((9 \<le> (of_char c :: nat) \<and> (of_char c :: nat) \<le> 13) \<or> (of_char c :: nat) = 32)"

definition isSpace2 :: "char \<Rightarrow> char \<Rightarrow> bool" where
  "isSpace2 c d = ((of_char c :: nat) = 0xC2 \<and> ((of_char d :: nat) = 0x85 \<or> (of_char d :: nat) = 0xA0))"

definition isSpace3 :: "char \<Rightarrow> char \<Rightarrow> char \<Rightarrow> bool" where
  "isSpace3 c d e =
     (((of_char c :: nat) = 0xE1 \<and> (of_char d :: nat) = 0x9A \<and> (of_char e :: nat) = 0x80)
      \<or> ((of_char c :: nat) = 0xE2 \<and> (of_char d :: nat) = 0x80
          \<and> ((0x80 \<le> (of_char e :: nat) \<and> (of_char e :: nat) \<le> 0x8A)
              \<or> (of_char e :: nat) = 0xA8 \<or> (of_char e :: nat) = 0xA9 \<or> (of_char e :: nat) = 0xAF))
      \<or> ((of_char c :: nat) = 0xE2 \<and> (of_char d :: nat) = 0x81 \<and> (of_char e :: nat) = 0x9F)
      \<or> ((of_char c :: nat) = 0xE3 \<and> (of_char d :: nat) = 0x80 \<and> (of_char e :: nat) = 0x80))"

fun TrimLeft :: "string \<Rightarrow> string" where
  "TrimLeft (c # d # e # s) =
     (if isSpace1 c then TrimLeft (d # e # s)
      else if isSpace2 c d then TrimLeft (e # s)
      else if isSpace3 c d e then TrimLeft s
      else c # d # e # s)"
| "TrimLeft [c, d] =
     (if isSpace1 c then TrimLeft [d]
      else if isSpace2 c d then []
      else [c, d])"
| "TrimLeft [c] = (if isSpace1 c then [] else [c])"
| "TrimLeft [] = []"

text \<open>The same from the end, on the reversed string: \<open>e\<close> is the last byte.\<close>

fun TrimRightRev :: "string \<Rightarrow> string" where
  "TrimRightRev (e # d # c # s) =
     (if isSpace1 e then TrimRightRev (d # c # s)
      else if isSpace2 d e then TrimRightRev (c # s)
      else if isSpace3 c d e then TrimRightRev s
      else e # d # c # s)"
| "TrimRightRev [e, d] =
     (if isSpace1 e then TrimRightRev [d]
      else if isSpace2 d e then []
      else [e, d])"
| "TrimRightRev [e] = (if isSpace1 e then [] else [e])"
| "TrimRightRev [] = []"

definition TrimSpace :: "string \<Rightarrow> string" where
  "TrimSpace s = rev (TrimRightRev (rev (TrimLeft s)))"

text \<open>A byte of plain ASCII that is not white space.\<close>

definition plain :: "char \<Rightarrow> bool" where
  "plain c = (\<not> isSpace1 c \<and> (of_char c :: nat) < 128)"

text \<open>\<open>hex.EncodeToString\<close> and \<open>hex.DecodeString\<close> (\<open>None\<close> is its error).\<close>

definition hextable :: string where
  "hextable = ''0123456789abcdef''"

definition hex_EncodeToString :: "bytes \<Rightarrow> string" where
  "hex_EncodeToString src =
     concat (map (\<lambda>v. [hextable ! (unat v div 16), hextable ! (unat v mod 16)]) src)"

definition fromHexChar :: "char \<Rightarrow> nat option" where
  "fromHexChar c =
     (if CHR ''0'' \<le> c \<and> c \<le> CHR ''9'' then Some (of_char c - of_char CHR ''0'')
      else if CHR ''a'' \<le> c \<and> c \<le> CHR ''f'' then Some (of_char c - of_char CHR ''a'' + 10)
      else if CHR ''A'' \<le> c \<and> c \<le> CHR ''F'' then Some (of_char c - of_char CHR ''A'' + 10)
      else None)"

fun hex_DecodeString :: "string \<Rightarrow> bytes option" where
  "hex_DecodeString [] = Some []"
| "hex_DecodeString [c] = None"
| "hex_DecodeString (c # d # s) =
     (case (fromHexChar c, fromHexChar d) of
        (Some a, Some b) \<Rightarrow> map_option ((#) (word_of_nat (a * 16 + b))) (hex_DecodeString s)
      | _ \<Rightarrow> None)"


subsection \<open>Errors\<close>

text \<open>
  The error kinds that \<open>cache.go\<close> returns; \<open>iodine.New\<close> wraps an error with a stack
  trace and keeps its kind, and maps nil to nil, so it is left out. \<open>EOF\<close> is \<open>io.EOF\<close>,
  \<open>ErrorString\<close> is \<open>errors.New\<close>, \<open>HexError\<close> is any error of \<open>hex.DecodeString\<close>,
  \<open>BackendError\<close> is any error the persistent backend returns. The two panics are
  Go's "slice bounds out of range" and "index out of range".
\<close>

datatype cache_error =
    BucketNameInvalid string
  | ObjectNameInvalid string
  | BucketNotFound string
  | ObjectNotFound string
  | BucketExists string
  | ObjectExists string
  | TooManyBuckets string
  | InvalidACL string
  | InvalidRange int int
  | EntityTooLarge string string int "64 word"
  | InvalidDigest string
  | BadDigest
  | InternalError
  | EOF
  | ErrorString string
  | HexError
  | BackendError string
  | PanicSliceBounds
  | PanicIndexOutOfRange

subsection \<open>Functions of the package and of the Go library that are parameters\<close>

text \<open>
  \<open>IsValidBucket\<close>, \<open>IsValidObjectName\<close>, \<open>IsValidBucketACL\<close> and \<open>IsValidPrefix\<close> are
  defined in another file of package \<open>donut\<close>; \<open>md5_Sum\<close> is the digest that
  \<open>md5.New\<close>, \<open>Write\<close> and \<open>Sum(nil)\<close> compute over the bytes written;
  \<open>base64_DecodeString\<close> is \<open>base64.StdEncoding.DecodeString\<close>, with \<open>None\<close> for its
  error. All six are parameters of the model.
\<close>

record externals =
  IsValidBucket :: "string \<Rightarrow> bool"
  IsValidObjectName :: "string \<Rightarrow> bool"
  IsValidBucketACL :: "string \<Rightarrow> bool"
  IsValidPrefix :: "string \<Rightarrow> bool"
  md5_Sum :: "bytes \<Rightarrow> bytes"
  base64_DecodeString :: "string \<Rightarrow> bytes option"

subsection \<open>Data\<close>

text \<open>
  A Go map that the code ranges over or counts is an association list with distinct
  keys; the order of the list stands for the order in which \<open>range\<close> visits the map,
  which Go leaves open. \<open>map_of\<close> reads a key, \<open>AList.update\<close> writes one,
  \<open>AList.delete\<close> is Go's \<open>delete\<close>.
\<close>

record BucketMetadata =
  Name :: string
  Created :: go_time
  ACL :: string

record ObjectMetadata =
  Bucket :: string
  Object :: string
  Metadata :: "(string \<times> string) list"
  Created :: go_time
  MD5Sum :: string
  Size :: int

text \<open>\<open>ObjectMetadata{}\<close>, the zero value.\<close>

definition ObjectMetadata_zero :: ObjectMetadata where
  "ObjectMetadata_zero =
     \<lparr>Bucket = [], Object = [], Metadata = [], Created = 0, MD5Sum = [], Size = 0\<rparr>"

typedecl PartMetadata

record multiPartSession =
  totalParts :: int
  uploadID :: string
  initiated :: go_time

record storedBucket =
  bucketMetadata :: BucketMetadata
  objectMetadata :: "(string \<times> ObjectMetadata) list"
  partMetadata :: "(string \<times> PartMetadata) list"
  multiPartSession :: "(string \<times> multiPartSession) list"

text \<open>What the backend's \<open>ListObjects\<close> returns.\<close>

record ListObjectsResult =
  Objects :: "(string \<times> ObjectMetadata) list"
  CommonPrefixes :: "string list"
  IsTruncated :: bool

record BucketResourcesMetadata =
  Prefix :: string
  Marker :: string
  NextMarker :: string
  Maxkeys :: int
  Delimiter :: string
  IsTruncated :: bool
  CommonPrefixes :: "string list"

text \<open>
  The persistent backend (interface \<open>Donut\<close>) is an external collaborator: what it
  answers to each call is a parameter. \<open>donut_GetObject\<close> gives the bytes that the
  returned reader will deliver and the size it announces; \<open>donut_PutObject\<close> is given
  the bytes the reader holds and says also which of them it left unread.
\<close>

record Donut =
  donut_GetObject :: "string \<Rightarrow> string \<Rightarrow> cache_error + (bytes \<times> int)"
  donut_PutObject ::
    "string \<Rightarrow> string \<Rightarrow> string \<Rightarrow> bytes \<Rightarrow> (string \<times> string) list
       \<Rightarrow> (cache_error + ObjectMetadata) \<times> bytes"
  donut_MakeBucket :: "string \<Rightarrow> string \<Rightarrow> cache_error option"
  donut_GetObjectMetadata :: "string \<Rightarrow> string \<Rightarrow> cache_error + ObjectMetadata"
  donut_ListObjects ::
    "string \<Rightarrow> string \<Rightarrow> string \<Rightarrow> string \<Rightarrow> int \<Rightarrow> cache_error + ListObjectsResult"

subsection \<open>The bounded byte cache (package trove)\<close>

text \<open>
  Modelled from the spec: package \<open>trove\<close>, whose \<open>Cache\<close> holds the bytes of the cached
  objects (\<open>Get\<close>, \<open>Len\<close>, \<open>Set\<close>, \<open>Append\<close>, \<open>OnExpired\<close>). The spec describes it as
  "raw bytes for one object key, owned by a bounded, time-expiring cache keyed by
  bucket/object", with the invariant "total cached bytes \<le> configured maximum", and says
  that an entry can be "evicted by size or age", the eviction being reported through the
  callback. Eviction by age is the work of a background task and happens between calls;
  it is outside this model. A maximum of 0 means no bound (\<open>NewCache\<close> creates the cache
  of multipart objects with maximum 0). Which entries make room for new bytes is not
  said; here it is the entries at the front of the list, whose order is arbitrary.
\<close>

record trove_Cache =
  items :: "(string \<times> bytes) list"
  trove_maxSize :: nat

text \<open>Modelled from the spec: the total of the cached bytes.\<close>

definition trove_currentSize :: "(string \<times> bytes) list \<Rightarrow> nat" where
  "trove_currentSize its = sum_list (map (\<lambda>kv. length (snd kv)) its)"

text \<open>Modelled from the spec: \<open>Get\<close> returns the bytes under a key, if any.\<close>

definition trove_Get :: "trove_Cache \<Rightarrow> string \<Rightarrow> bytes option" where
  "trove_Get t key = map_of (items t) key"

text \<open>Modelled from the spec: \<open>Len\<close>, the number of bytes under a key, 0 when there is none.\<close>

definition trove_Len :: "trove_Cache \<Rightarrow> string \<Rightarrow> nat" where
  "trove_Len t key = (case map_of (items t) key of None \<Rightarrow> 0 | Some v \<Rightarrow> length v)"

text \<open>
  Modelled from the spec: eviction by size. Entries leave from the front until \<open>need\<close>
  more bytes fit under the maximum; the keys that left are returned, for the callback.
\<close>

fun trove_evict :: "nat \<Rightarrow> nat \<Rightarrow> (string \<times> bytes) list \<Rightarrow> (string \<times> bytes) list \<times> string list" where
  "trove_evict maxSz need [] = ([], [])"
| "trove_evict maxSz need (kv # its) =
     (if trove_currentSize (kv # its) + need > maxSz
      then (case trove_evict maxSz need its of (its', evicted) \<Rightarrow> (its', fst kv # evicted))
      else (kv # its, []))"

definition trove_makeRoom :: "trove_Cache \<Rightarrow> nat \<Rightarrow> (string \<times> bytes) list \<times> string list" where
  "trove_makeRoom t need =
     (if trove_maxSize t > 0 then trove_evict (trove_maxSize t) need (items t) else (items t, []))"

text \<open>
  Modelled from the spec: \<open>Set\<close> stores the bytes under the key, \<open>Append\<close> adds them to
  what the key holds already ("appending each chunk into the bounded cache"). Both refuse
  (\<open>False\<close>) bytes that alone exceed the maximum, and make room first. The result is the
  answer, the cache, and the keys evicted.
\<close>

definition trove_Set :: "trove_Cache \<Rightarrow> string \<Rightarrow> bytes \<Rightarrow> bool \<times> trove_Cache \<times> string list" where
  "trove_Set t key v =
     (if trove_maxSize t > 0 \<and> length v > trove_maxSize t then (False, t, [])
      else (case trove_makeRoom t (length v) of
              (its, evicted) \<Rightarrow> (True, t\<lparr>items := AList.update key v its\<rparr>, evicted)))"

definition trove_Append :: "trove_Cache \<Rightarrow> string \<Rightarrow> bytes \<Rightarrow> bool \<times> trove_Cache \<times> string list" where
  "trove_Append t key v =
     (if trove_maxSize t > 0 \<and> length v > trove_maxSize t then (False, t, [])
      else (case trove_makeRoom t (length v) of
              (its, evicted) \<Rightarrow>
                (True,
                 t\<lparr>items := AList.update key
                     (case map_of its key of None \<Rightarrow> v | Some old \<Rightarrow> old @ v) its\<rparr>,
                 evicted)))"

subsection \<open>The cache\<close>

record Cache =
  storedBuckets :: "(string \<times> storedBucket) list"
  objects :: trove_Cache
  multiPartObjects :: trove_Cache
  maxSize :: "64 word"
  expiration :: duration
  donut :: "Donut option"

definition totalBuckets :: nat where
  "totalBuckets = 100"

text \<open>
  \<open>NewCache\<close>, with the backend that \<open>NewDonut\<close> returned (\<open>None\<close> when it returned an
  error and with it the nil interface).
\<close>

definition NewCache :: "64 word \<Rightarrow> duration \<Rightarrow> Donut option \<Rightarrow> Cache" where
  "NewCache maxSz expir d =
     \<lparr>storedBuckets = [],
      objects = \<lparr>items = [], trove_maxSize = unat maxSz\<rparr>,
      multiPartObjects = \<lparr>items = [], trove_maxSize = 0\<rparr>,
      maxSize = maxSz, expiration = expir, donut = d\<rparr>"

text \<open>
  \<open>expiredObject\<close>, the callback of \<open>objects\<close>: the key leaves the object metadata of
  every bucket.
\<close>

definition expiredObject :: "Cache \<Rightarrow> string \<Rightarrow> Cache" where
  "expiredObject cache key =
     cache\<lparr>storedBuckets :=
       map (\<lambda>(name, storedBucket).
              (name, storedBucket\<lparr>objectMetadata := AList.delete key (objectMetadata storedBucket)\<rparr>))
         (storedBuckets cache)\<rparr>"

text \<open>\<open>cache.objects.Append\<close> and \<open>cache.objects.Set\<close>, with the callback run for every key evicted.\<close>

definition objects_Append :: "Cache \<Rightarrow> string \<Rightarrow> bytes \<Rightarrow> bool \<times> Cache" where
  "objects_Append cache key v =
     (case trove_Append (objects cache) key v of
        (ok, t, evicted) \<Rightarrow> (ok, foldl expiredObject (cache\<lparr>objects := t\<rparr>) evicted))"

definition objects_Set :: "Cache \<Rightarrow> string \<Rightarrow> bytes \<Rightarrow> bool \<times> Cache" where
  "objects_Set cache key v =
     (case trove_Set (objects cache) key v of
        (ok, t, evicted) \<Rightarrow> (ok, foldl expiredObject (cache\<lparr>objects := t\<rparr>) evicted))"

subsection \<open>Readers and writers\<close>

text \<open>
  A reader is a \<open>bytes.Reader\<close>, given by the bytes it has not delivered yet: \<open>Read\<close> into
  a buffer of \<open>n > 0\<close> bytes delivers up to \<open>n\<close> of them with a nil error, and \<open>(0, io.EOF)\<close>
  when none is left. The result is the bytes read, the error and the reader.
\<close>

definition reader_Read :: "bytes \<Rightarrow> nat \<Rightarrow> bytes \<times> cache_error option \<times> bytes" where
  "reader_Read r n = (if r = [] then ([], Some EOF, r) else (take n r, None, drop n r))"

text \<open>
  A writer is a \<open>bytes.Buffer\<close>, given by the bytes written to it so far; its \<open>Write\<close>
  takes everything and never fails. \<open>proxyWriter\<close> writes through to such a writer and
  keeps a copy of what went through.
\<close>

definition buffer_Write :: "bytes \<Rightarrow> bytes \<Rightarrow> bytes" where
  "buffer_Write w p = w @ p"

record proxyWriter =
  writer :: bytes
  writtenBytes :: bytes

definition newProxyWriter :: "bytes \<Rightarrow> proxyWriter" where
  "newProxyWriter w = \<lparr>writer = w, writtenBytes = []\<rparr>"

definition proxyWriter_Write :: "proxyWriter \<Rightarrow> bytes \<Rightarrow> proxyWriter" where
  "proxyWriter_Write r p =
     r\<lparr>writer := buffer_Write (writer r) p, writtenBytes := writtenBytes r @ p\<rparr>"

text \<open>
  \<open>io.CopyN(dst, src, n)\<close>: copies \<open>n\<close> bytes, or fails with \<open>io.EOF\<close> after copying what
  there was; a negative \<open>n\<close> copies nothing and returns \<open>(0, nil)\<close>. Result: the count,
  the error, the writer and the reader.
\<close>

definition CopyN ::
  "('w \<Rightarrow> bytes \<Rightarrow> 'w) \<Rightarrow> 'w \<Rightarrow> bytes \<Rightarrow> int \<Rightarrow> int \<times> cache_error option \<times> 'w \<times> bytes" where
  "CopyN write dst src n =
     (if n < 0 then (0, None, dst, src)
      else if n \<le> int (length src)
      then (n, None, write dst (take (nat n) src), drop (nat n) src)
      else (int (length src), Some EOF, write dst src, []))"

subsection \<open>Reading objects\<close>

text \<open>
  The functions take the cache and return it with their result; those that write to
  \<open>w\<close> take and return the writer too. The locks are left out: the calls of a model run
  one after the other.
\<close>

definition GetObject ::
  "externals \<Rightarrow> Cache \<Rightarrow> bytes \<Rightarrow> string \<Rightarrow> string \<Rightarrow> (cache_error + int) \<times> bytes \<times> Cache" where
  "GetObject x cache w bucket object =
     (if \<not> IsValidBucket x bucket then (Inl (BucketNameInvalid bucket), w, cache)
      else if \<not> IsValidObjectName x object then (Inl (ObjectNameInvalid object), w, cache)
      else if map_of (storedBuckets cache) bucket = None then (Inl (BucketNotFound bucket), w, cache)
      else
        (let objectKey = bucket @ ''/'' @ object in
         case trove_Get (objects cache) objectKey of
           None \<Rightarrow>
             (case donut cache of
                Some d \<Rightarrow>
                  (case donut_GetObject d bucket object of
                     Inl err \<Rightarrow> (Inl err, w, cache)
                   | Inr (reader, size') \<Rightarrow>
                       (case CopyN proxyWriter_Write (newProxyWriter w) reader size' of
                          (written, err, pw, reader') \<Rightarrow>
                            (case err of
                               Some e \<Rightarrow> (Inl e, writer pw, cache)
                             | None \<Rightarrow>
                                 (case objects_Set cache objectKey (writtenBytes pw) of
                                    (ok, cache') \<Rightarrow>
                                      if \<not> ok then (Inl InternalError, writer pw, cache')
                                      else (Inr written, writer pw, cache')))))
              | None \<Rightarrow> (Inl (ObjectNotFound object), w, cache))
         | Some data \<Rightarrow>
             (case CopyN buffer_Write w data (int (trove_Len (objects cache) objectKey)) of
                (written, err, w', reader') \<Rightarrow>
                  (case err of
                     Some e \<Rightarrow> (Inl e, w', cache)
                   | None \<Rightarrow> (Inr written, w', cache)))))"

text \<open>
  \<open>GetPartialObject\<close>. On a miss with a backend, \<open>start\<close> bytes are discarded, a proxy
  writer \<open>pw\<close> is made, and \<open>io.CopyN(w, reader, length)\<close> copies to \<open>w\<close>; what is then
  stored in the cache is \<open>pw.writtenBytes\<close>. On a hit, \<open>data[start:]\<close> panics when
  \<open>start\<close> is beyond the end of \<open>data\<close>.
\<close>

definition GetPartialObject ::
  "externals \<Rightarrow> Cache \<Rightarrow> bytes \<Rightarrow> string \<Rightarrow> string \<Rightarrow> int \<Rightarrow> int
     \<Rightarrow> (cache_error + int) \<times> bytes \<times> Cache" where
  "GetPartialObject x cache w bucket object start length' =
     (if \<not> IsValidBucket x bucket then (Inl (BucketNameInvalid bucket), w, cache)
      else if \<not> IsValidObjectName x object then (Inl (ObjectNameInvalid object), w, cache)
      else if start < 0 then (Inl (InvalidRange start length'), w, cache)
      else
        (let objectKey = bucket @ ''/'' @ object in
         case trove_Get (objects cache) objectKey of
           None \<Rightarrow>
             (case donut cache of
                Some d \<Rightarrow>
                  (case donut_GetObject d bucket object of
                     Inl err \<Rightarrow> (Inl err, w, cache)
                   | Inr (reader, size') \<Rightarrow>
                       (case CopyN (\<lambda>discard p. discard) () reader start of
                          (skipped, err0, discard, reader1) \<Rightarrow>
                            (case err0 of
                               Some e \<Rightarrow> (Inl e, w, cache)
                             | None \<Rightarrow>
                                 (let pw = newProxyWriter w in
                                  case CopyN buffer_Write w reader1 length' of
                                    (written, err, w', reader2) \<Rightarrow>
                                      (case err of
                                         Some e \<Rightarrow> (Inl e, w', cache)
                                       | None \<Rightarrow>
                                           (case objects_Set cache objectKey (writtenBytes pw) of
                                              (ok, cache') \<Rightarrow>
                                                if \<not> ok then (Inl InternalError, w', cache')
                                                else (Inr written, w', cache')))))))
              | None \<Rightarrow> (Inl (ObjectNotFound object), w, cache))
         | Some data \<Rightarrow>
             if start > int (length data) then (Inl PanicSliceBounds, w, cache)
             else
               (case CopyN buffer_Write w (drop (nat start) data) length' of
                  (written, err, w', reader') \<Rightarrow>
                    (case err of
                       Some e \<Rightarrow> (Inl e, w', cache)
                     | None \<Rightarrow> (Inr written, w', cache)))))"

subsection \<open>Creating objects\<close>

definition isMD5SumEqual :: "string \<Rightarrow> string \<Rightarrow> cache_error option" where
  "isMD5SumEqual expectedMD5Sum actualMD5Sum =
     (if TrimSpace expectedMD5Sum \<noteq> [] \<and> TrimSpace actualMD5Sum \<noteq> [] then
        (case hex_DecodeString expectedMD5Sum of
           None \<Rightarrow> Some HexError
         | Some expectedMD5SumBytes \<Rightarrow>
             (case hex_DecodeString actualMD5Sum of
                None \<Rightarrow> Some HexError
              | Some actualMD5SumBytes \<Rightarrow>
                  if expectedMD5SumBytes \<noteq> actualMD5SumBytes
                  then Some (ErrorString ''bad digest, md5sum mismatch'')
                  else None))
      else Some (ErrorString ''invalid argument''))"

text \<open>
  \<open>storedBucket.objectMetadata[objectKey] = m; cache.storedBuckets[bucket] = storedBucket\<close>.
  \<open>storedBucket\<close> is the copy of the bucket's struct made at the start of the call; its
  three maps are the very maps of the cache, so the write lands in the map as it is now,
  while \<open>bucketMetadata\<close> is that of the copy.
\<close>

definition putObjectMetadata ::
  "Cache \<Rightarrow> string \<Rightarrow> storedBucket \<Rightarrow> string \<Rightarrow> ObjectMetadata \<Rightarrow> Cache" where
  "putObjectMetadata cache bucket storedBucket objectKey m =
     (let cur = (case map_of (storedBuckets cache) bucket of
                   None \<Rightarrow> storedBucket | Some sb \<Rightarrow> sb)
      in cache\<lparr>storedBuckets :=
           AList.update bucket
             (cur\<lparr>bucketMetadata := bucketMetadata storedBucket,
                  objectMetadata := AList.update objectKey m (objectMetadata cur)\<rparr>)
             (storedBuckets cache)\<rparr>)"

definition chunkSize :: nat where
  "chunkSize = 1024 * 1024"

text \<open>
  The loop \<open>for err == nil\<close> of \<open>createObject\<close>: each round reads up to \<open>chunkSize\<close> bytes,
  leaves the loop when none came, and else hashes them and appends them to the cache
  entry. \<open>hashed\<close> is what was written to the hash so far. The result is \<open>Inl\<close> for the
  return from inside the loop, and else the \<open>err\<close>, the hashed bytes and \<open>totalLength\<close>
  the loop ends with; then the cache and the reader.
\<close>

function createObject_loop ::
  "Cache \<Rightarrow> string \<Rightarrow> bytes \<Rightarrow> bytes \<Rightarrow> int
     \<Rightarrow> (cache_error + (cache_error option \<times> bytes \<times> int)) \<times> Cache \<times> bytes" where
  "createObject_loop cache objectKey data hashed totalLength =
     (case reader_Read data chunkSize of
        (byteBuffer, err, data') \<Rightarrow>
          if length byteBuffer = 0 then (Inr (err, hashed, totalLength), cache, data')
          else
            (case objects_Append cache objectKey byteBuffer of
               (ok, cache') \<Rightarrow>
                 if \<not> ok then (Inl InternalError, cache', data')
                 else if err = None
                 then createObject_loop cache' objectKey data' (hashed @ byteBuffer)
                        (totalLength + int (length byteBuffer))
                 else (Inr (err, hashed @ byteBuffer, totalLength + int (length byteBuffer)),
                       cache', data')))"
  by pat_completeness auto
termination
  by (relation "measure (\<lambda>(cache, objectKey, data, hashed, totalLength). length data)")
     (auto simp: reader_Read_def chunkSize_def split: if_splits)

declare createObject_loop.simps [simp del]

text \<open>
  \<open>createObject\<close>. \<open>now\<close> is what \<open>time.Now().UTC()\<close> returns. The result is the metadata
  or the error, the cache, and the reader. After the loop, \<open>err != io.EOF\<close> returns
  \<open>iodine.New(err, nil)\<close>: for a nil \<open>err\<close> (a read of no bytes without an error) that is
  the zero metadata with a nil error. The declared size is not used here.
\<close>

definition createObject ::
  "externals \<Rightarrow> go_time \<Rightarrow> Cache \<Rightarrow> string \<Rightarrow> string \<Rightarrow> string \<Rightarrow> string \<Rightarrow> int \<Rightarrow> bytes
     \<Rightarrow> (cache_error + ObjectMetadata) \<times> Cache \<times> bytes" where
  "createObject x now cache bucket key contentType expectedMD5Sum size' data =
     (if \<not> IsValidBucket x bucket then (Inl (BucketNameInvalid bucket), cache, data)
      else if \<not> IsValidObjectName x key then (Inl (ObjectNameInvalid key), cache, data)
      else
        (case map_of (storedBuckets cache) bucket of
           None \<Rightarrow> (Inl (BucketNotFound bucket), cache, data)
         | Some storedBucket \<Rightarrow>
             (let objectKey = bucket @ ''/'' @ key in
              if map_of (objectMetadata storedBucket) objectKey \<noteq> None
              then (Inl (ObjectExists key), cache, data)
              else
                (let contentType' =
                       TrimSpace (if contentType = [] then ''application/octet-stream''
                                  else contentType)
                 in
                 case (if TrimSpace expectedMD5Sum \<noteq> [] then
                         (case base64_DecodeString x (TrimSpace expectedMD5Sum) of
                            None \<Rightarrow> Inl (InvalidDigest expectedMD5Sum)
                          | Some expectedMD5SumBytes \<Rightarrow>
                              Inr (hex_EncodeToString expectedMD5SumBytes))
                       else Inr expectedMD5Sum) of
                   Inl e \<Rightarrow> (Inl e, cache, data)
                 | Inr expectedMD5Sum' \<Rightarrow>
                     (case donut cache of
                        Some d \<Rightarrow>
                          (case donut_PutObject d bucket key expectedMD5Sum' data
                                  [(''contentType'', contentType')] of
                             (Inl err, data') \<Rightarrow> (Inl err, cache, data')
                           | (Inr objMetadata, data') \<Rightarrow>
                               (Inr objMetadata,
                                putObjectMetadata cache bucket storedBucket objectKey objMetadata,
                                data'))
                      | None \<Rightarrow>
                          (case createObject_loop cache objectKey data [] 0 of
                             (Inl e, cache', data') \<Rightarrow> (Inl e, cache', data')
                           | (Inr (err, hashed, totalLength), cache', data') \<Rightarrow>
                               (case err of
                                  None \<Rightarrow> (Inr ObjectMetadata_zero, cache', data')
                                | Some e \<Rightarrow>
                                    if e \<noteq> EOF then (Inl e, cache', data')
                                    else
                                      (let md5Sum = hex_EncodeToString (md5_Sum x hashed) in
                                       if TrimSpace expectedMD5Sum' \<noteq> []
                                          \<and> isMD5SumEqual (TrimSpace expectedMD5Sum') md5Sum \<noteq> None
                                       then (Inl BadDigest, cache', data')
                                       else
                                         (let newObject =
                                                \<lparr>Bucket = bucket, Object = key,
                                                 Metadata = [(''contentType'', contentType')],
                                                 Created = now, MD5Sum = md5Sum,
                                                 Size = totalLength\<rparr>
                                          in (Inr newObject,
                                              putObjectMetadata cache' bucket storedBucket
                                                objectKey newObject,
                                              data'))))))))))"

text \<open>
  \<open>CreateObject\<close>: \<open>size > int64(cache.maxSize)\<close> compares the declared size with the
  maximum read as a signed 64-bit number.
\<close>

definition CreateObject ::
  "externals \<Rightarrow> go_time \<Rightarrow> Cache \<Rightarrow> string \<Rightarrow> string \<Rightarrow> string \<Rightarrow> string \<Rightarrow> int \<Rightarrow> bytes
     \<Rightarrow> (cache_error + ObjectMetadata) \<times> Cache \<times> bytes" where
  "CreateObject x now cache bucket key contentType expectedMD5Sum size' data =
     (if size' > sint (maxSize cache)
      then (Inl (EntityTooLarge bucket key size' (maxSize cache)), cache, data)
      else createObject x now cache bucket key contentType expectedMD5Sum size' data)"

subsection \<open>Buckets\<close>

text \<open>
  \<open>MakeBucket\<close>: the count of the buckets is tested first, with \<open>==\<close>. \<open>now\<close> is what
  \<open>time.Now().UTC()\<close> returns.
\<close>

definition MakeBucket ::
  "externals \<Rightarrow> go_time \<Rightarrow> Cache \<Rightarrow> string \<Rightarrow> string \<Rightarrow> cache_error option \<times> Cache" where
  "MakeBucket x now cache bucketName acl =
     (if length (storedBuckets cache) = totalBuckets
      then (Some (TooManyBuckets bucketName), cache)
      else if \<not> IsValidBucket x bucketName then (Some (BucketNameInvalid bucketName), cache)
      else if \<not> IsValidBucketACL x acl then (Some (InvalidACL acl), cache)
      else if map_of (storedBuckets cache) bucketName \<noteq> None
      then (Some (BucketExists bucketName), cache)
      else
        (let acl' = (if TrimSpace acl = [] then ''private'' else acl) in
         case (case donut cache of
                 Some d \<Rightarrow> donut_MakeBucket d bucketName acl'
               | None \<Rightarrow> None) of
           Some err \<Rightarrow> (Some err, cache)
         | None \<Rightarrow>
             (None,
              cache\<lparr>storedBuckets :=
                AList.update bucketName
                  \<lparr>bucketMetadata =
                     \<lparr>Name = bucketName, BucketMetadata.Created = now, ACL = acl'\<rparr>,
                   objectMetadata = [], partMetadata = [], multiPartSession = []\<rparr>
                  (storedBuckets cache)\<rparr>)))"

text \<open>
  \<open>ListBuckets\<close>: the metadata of every stored bucket, sorted by name with \<open>sort.Sort\<close>.
  Its error is always nil.
\<close>

definition ListBuckets :: "Cache \<Rightarrow> cache_error + BucketMetadata list" where
  "ListBuckets cache =
     Inr (sort_key Name (map (\<lambda>nb. bucketMetadata (snd nb)) (storedBuckets cache)))"

definition GetObjectMetadata ::
  "externals \<Rightarrow> Cache \<Rightarrow> string \<Rightarrow> string \<Rightarrow> (cache_error + ObjectMetadata) \<times> Cache" where
  "GetObjectMetadata x cache bucket key =
     (if \<not> IsValidBucket x bucket then (Inl (BucketNameInvalid bucket), cache)
      else if \<not> IsValidObjectName x key then (Inl (ObjectNameInvalid key), cache)
      else
        (case map_of (storedBuckets cache) bucket of
           None \<Rightarrow> (Inl (BucketNotFound bucket), cache)
         | Some storedBucket \<Rightarrow>
             (let objectKey = bucket @ ''/'' @ key in
              case map_of (objectMetadata storedBucket) objectKey of
                Some objMetadata \<Rightarrow> (Inr objMetadata, cache)
              | None \<Rightarrow>
                  (case donut cache of
                     Some d \<Rightarrow>
                       (case donut_GetObjectMetadata d bucket key of
                          Inl err \<Rightarrow> (Inl err, cache)
                        | Inr objMetadata \<Rightarrow>
                            (Inr objMetadata,
                             cache\<lparr>storedBuckets :=
                               AList.update bucket
                                 (storedBucket\<lparr>objectMetadata :=
                                    AList.update objectKey objMetadata
                                      (objectMetadata storedBucket)\<rparr>)
                                 (storedBuckets cache)\<rparr>))
                   | None \<Rightarrow> (Inl (ObjectNotFound key), cache)))))"

subsection \<open>Listing objects\<close>

text \<open>
  Modelled from the spec: the helpers of \<open>ListObjects\<close> that are defined in another file
  of the package (\<open>TrimPrefix\<close>, \<open>HasNoDelimiter\<close>, \<open>HasDelimiter\<close>, \<open>SplitDelimiter\<close>,
  \<open>SortU\<close>, \<open>RemoveDuplicates\<close> and \<open>IsDelimiterSet\<close>). The spec: "If prefix is non-empty
  it is stripped from each candidate before delimiter processing. If delimiter is
  non-empty, keys containing the delimiter after prefix-stripping are folded into a
  commonPrefixes set (the portion up to and including the first delimiter occurrence),
  while keys without the delimiter remain individually listed; duplicates in both the
  listed-keys set and the common-prefixes set are removed and both are lexicographically
  sorted", and the next marker is set "only if a delimiter was set".
\<close>

text \<open>Modelled from the spec: \<open>TrimPrefix\<close> strips the prefix from each key that starts with it.\<close>

definition TrimPrefix :: "string list \<Rightarrow> string \<Rightarrow> string list" where
  "TrimPrefix objs prefix =
     map (\<lambda>object. if HasPrefix object prefix then drop (length prefix) object else object) objs"

text \<open>Modelled from the spec: \<open>HasNoDelimiter\<close> keeps the keys without the delimiter.\<close>

definition HasNoDelimiter :: "string list \<Rightarrow> string \<Rightarrow> string list" where
  "HasNoDelimiter objs delim = filter (\<lambda>object. \<not> Contains object delim) objs"

text \<open>Modelled from the spec: \<open>HasDelimiter\<close> keeps the keys that contain the delimiter.\<close>

definition HasDelimiter :: "string list \<Rightarrow> string \<Rightarrow> string list" where
  "HasDelimiter objs delim = filter (\<lambda>object. Contains object delim) objs"

text \<open>
  Modelled from the spec: the portion of a key up to and including the first occurrence
  of the delimiter (the key followed by the delimiter when it has none), and
  \<open>SplitDelimiter\<close>, which takes that portion of every key.
\<close>

fun upToDelimiter :: "string \<Rightarrow> string \<Rightarrow> string" where
  "upToDelimiter [] delim = delim"
| "upToDelimiter (c # cs) delim =
     (if HasPrefix (c # cs) delim then delim else c # upToDelimiter cs delim)"

definition SplitDelimiter :: "string list \<Rightarrow> string \<Rightarrow> string list" where
  "SplitDelimiter objs delim = map (\<lambda>object. upToDelimiter object delim) objs"

text \<open>Modelled from the spec: \<open>RemoveDuplicates\<close> keeps the first of equal elements.\<close>

fun RemoveDuplicates_from :: "string list \<Rightarrow> string list \<Rightarrow> string list" where
  "RemoveDuplicates_from seen [] = []"
| "RemoveDuplicates_from seen (v # vs) =
     (if v \<in> set seen then RemoveDuplicates_from seen vs
      else v # RemoveDuplicates_from (v # seen) vs)"

definition RemoveDuplicates :: "string list \<Rightarrow> string list" where
  "RemoveDuplicates vs = RemoveDuplicates_from [] vs"

text \<open>Modelled from the spec: \<open>SortU\<close> removes the duplicates and sorts.\<close>

definition SortU :: "string list \<Rightarrow> string list" where
  "SortU objs = sort (RemoveDuplicates objs)"

text \<open>Modelled from the spec: \<open>IsDelimiterSet\<close>, a delimiter was set.\<close>

definition IsDelimiterSet :: "BucketResourcesMetadata \<Rightarrow> bool" where
  "IsDelimiterSet b = (Delimiter b \<noteq> [])"

text \<open>\<open>storedBucket.objectMetadata[k]\<close>: an absent key reads as the zero value.\<close>

definition objectMetadata_at :: "storedBucket \<Rightarrow> string \<Rightarrow> ObjectMetadata" where
  "objectMetadata_at sb k =
     (case map_of (objectMetadata sb) k of None \<Rightarrow> ObjectMetadata_zero | Some m \<Rightarrow> m)"

text \<open>
  The keys that the first loop of \<open>ListObjects\<close> collects: those that start with the
  bucket and a slash and, without them, start with the prefix and come after the marker.
\<close>

definition candidateKeys :: "storedBucket \<Rightarrow> string \<Rightarrow> BucketResourcesMetadata \<Rightarrow> string list" where
  "candidateKeys sb bucket resources =
     concat (map (\<lambda>key.
        if HasPrefix key (bucket @ ''/'') then
          (let key' = drop (length bucket + 1) key in
           if HasPrefix key' (Prefix resources) \<and> key' > Marker resources then [key'] else [])
        else [])
      (map fst (objectMetadata sb)))"

text \<open>
  The last loop of \<open>ListObjects\<close> with what follows it. \<open>results[len(results)-1]\<close> panics
  while \<open>results\<close> is empty.
\<close>

fun ListObjects_results ::
  "storedBucket \<Rightarrow> string \<Rightarrow> BucketResourcesMetadata \<Rightarrow> ObjectMetadata list \<Rightarrow> string list
     \<Rightarrow> cache_error + ObjectMetadata list \<times> BucketResourcesMetadata" where
  "ListObjects_results sb bucket resources results [] =
     Inr (results,
          resources\<lparr>CommonPrefixes := sort (RemoveDuplicates (CommonPrefixes resources))\<rparr>)"
| "ListObjects_results sb bucket resources results (key # keys) =
     (if int (length results) = Maxkeys resources then
        (if IsDelimiterSet resources then
           (if results = [] then Inl PanicIndexOutOfRange
            else Inr (results,
                      resources\<lparr>IsTruncated := True, NextMarker := Object (last results)\<rparr>))
         else Inr (results, resources\<lparr>IsTruncated := True\<rparr>))
      else ListObjects_results sb bucket resources
             (results @ [objectMetadata_at sb (bucket @ ''/'' @ Prefix resources @ key)]) keys)"

definition ListObjects ::
  "externals \<Rightarrow> Cache \<Rightarrow> string \<Rightarrow> BucketResourcesMetadata
     \<Rightarrow> cache_error + ObjectMetadata list \<times> BucketResourcesMetadata" where
  "ListObjects x cache bucket resources =
     (if \<not> IsValidBucket x bucket then Inl (BucketNameInvalid bucket)
      else if \<not> IsValidPrefix x (Prefix resources) then Inl (ObjectNameInvalid (Prefix resources))
      else
        (case map_of (storedBuckets cache) bucket of
           None \<Rightarrow> Inl (BucketNotFound bucket)
         | Some storedBucket \<Rightarrow>
             (case donut cache of
                Some d \<Rightarrow>
                  (case donut_ListObjects d bucket (Prefix resources) (Marker resources)
                          (Delimiter resources) (Maxkeys resources) of
                     Inl err \<Rightarrow> Inl err
                   | Inr listObjects \<Rightarrow>
                       (let resources' =
                              resources\<lparr>CommonPrefixes := ListObjectsResult.CommonPrefixes listObjects,
                                        IsTruncated := ListObjectsResult.IsTruncated listObjects\<rparr>
                        in if IsTruncated resources' \<and> IsDelimiterSet resources'
                           then Inl PanicIndexOutOfRange
                           else Inr (map (\<lambda>key. case map_of (Objects listObjects) key of
                                                   None \<Rightarrow> ObjectMetadata_zero | Some m \<Rightarrow> m)
                                       (sort (map fst (Objects listObjects))),
                                     resources')))
              | None \<Rightarrow>
                  (let keys = candidateKeys storedBucket bucket resources;
                       keys' = (if TrimSpace (Prefix resources) \<noteq> []
                                then TrimPrefix keys (Prefix resources) else keys);
                       prefixes = (if TrimSpace (Delimiter resources) \<noteq> []
                                   then SortU (SplitDelimiter (HasDelimiter keys' (Delimiter resources))
                                                 (Delimiter resources))
                                   else []);
                       filteredKeys = (if TrimSpace (Delimiter resources) \<noteq> []
                                       then HasNoDelimiter keys' (Delimiter resources) else keys');
                       resources' =
                         resources\<lparr>CommonPrefixes :=
                           CommonPrefixes resources
                           @ map (\<lambda>commonPrefix. Prefix resources @ commonPrefix) prefixes\<rparr>
                   in ListObjects_results storedBucket bucket resources' []
                        (sort (RemoveDuplicates filteredKeys))))))"

subsection \<open>Notions used in the statements\<close>

text \<open>The bucket has metadata recorded under the object key.\<close>

definition objectRecorded :: "Cache \<Rightarrow> string \<Rightarrow> string \<Rightarrow> bool" where
  "objectRecorded cache bucket objectKey =
     (case map_of (storedBuckets cache) bucket of
        None \<Rightarrow> False
      | Some sb \<Rightarrow> map_of (objectMetadata sb) objectKey \<noteq> None)"

text \<open>The byte cache has room for \<open>n\<close> more bytes without evicting anything.\<close>

definition hasRoom :: "trove_Cache \<Rightarrow> nat \<Rightarrow> bool" where
  "hasRoom t n = (trove_maxSize t = 0 \<or> trove_currentSize (items t) + n \<le> trove_maxSize t)"

text \<open>The byte cache accepts \<open>n\<close> bytes, possibly after evicting entries.\<close>

definition accepts :: "trove_Cache \<Rightarrow> nat \<Rightarrow> bool" where
  "accepts t n = (trove_maxSize t = 0 \<or> n \<le> trove_maxSize t)"

text \<open>The bytes that the byte cache holds under a key, none when the key is absent.\<close>

definition bytesUnder :: "trove_Cache \<Rightarrow> string \<Rightarrow> bytes" where
  "bytesUnder t key = (case map_of (items t) key of None \<Rightarrow> [] | Some v \<Rightarrow> v)"


text \<open>The Go slice expression \<open>xs[lo:hi]\<close>, defined for \<open>0 \<le> lo \<le> hi \<le> len(xs)\<close>.\<close>

definition go_slice :: "bytes \<Rightarrow> int \<Rightarrow> int \<Rightarrow> bytes option" where
  "go_slice xs lo hi =
     (if 0 \<le> lo \<and> lo \<le> hi \<and> hi \<le> int (length xs)
      then Some (take (nat (hi - lo)) (drop (nat lo) xs)) else None)"

text \<open>
  The stored buckets are well formed: no bucket name occurs twice, and every bucket is
  stored under the name in its metadata. \<open>MakeBucket\<close> keeps this.
\<close>

definition bucketsWellFormed :: "Cache \<Rightarrow> bool" where
  "bucketsWellFormed cache =
     (distinct (map fst (storedBuckets cache))
      \<and> list_all (\<lambda>nb. Name (bucketMetadata (snd nb)) = fst nb) (storedBuckets cache))"

subsection \<open>Closed examples\<close>

text \<open>
  The parameters of the closed examples below. The validity tests accept the names the
  examples use; the digest is a stand-in of two bytes (the theorems hold for every
  digest function); \<open>example_base64\<close> decodes the standard alphabet with padding and
  skips line breaks.
\<close>

definition example_digest :: "bytes \<Rightarrow> bytes" where
  "example_digest bs = [word_of_nat (length bs), word_of_nat (sum_list (map unat bs))]"

definition base64_value :: "char \<Rightarrow> nat option" where
  "base64_value c =
     (if CHR ''A'' \<le> c \<and> c \<le> CHR ''Z'' then Some (of_char c - of_char CHR ''A'')
      else if CHR ''a'' \<le> c \<and> c \<le> CHR ''z'' then Some (of_char c - of_char CHR ''a'' + 26)
      else if CHR ''0'' \<le> c \<and> c \<le> CHR ''9'' then Some (of_char c - of_char CHR ''0'' + 52)
      else if c = CHR ''+'' then Some 62
      else if c = CHR ''/'' then Some 63
      else None)"

fun base64_quanta :: "string \<Rightarrow> bytes option" where
  "base64_quanta [] = Some []"
| "base64_quanta [a, b, c, d] =
     (case (base64_value a, base64_value b) of
        (Some p, Some q) \<Rightarrow>
          if c = CHR ''='' \<and> d = CHR ''='' then Some [word_of_nat (p * 4 + q div 16)]
          else
            (case base64_value c of
               None \<Rightarrow> None
             | Some r \<Rightarrow>
                 if d = CHR ''=''
                 then Some [word_of_nat (p * 4 + q div 16), word_of_nat (q mod 16 * 16 + r div 4)]
                 else
                   (case base64_value d of
                      None \<Rightarrow> None
                    | Some s \<Rightarrow>
                        Some [word_of_nat (p * 4 + q div 16), word_of_nat (q mod 16 * 16 + r div 4),
                              word_of_nat (r mod 4 * 64 + s)]))
      | _ \<Rightarrow> None)"
| "base64_quanta (a # b # c # d # rest) =
     (case (base64_value a, base64_value b, base64_value c, base64_value d) of
        (Some p, Some q, Some r, Some s) \<Rightarrow>
          map_option
            ((@) [word_of_nat (p * 4 + q div 16), word_of_nat (q mod 16 * 16 + r div 4),
                  word_of_nat (r mod 4 * 64 + s)])
            (base64_quanta rest)
      | _ \<Rightarrow> None)"
| "base64_quanta s = None"

definition example_base64 :: "string \<Rightarrow> bytes option" where
  "example_base64 s = base64_quanta (filter (\<lambda>c. c \<noteq> CHR 0x0D \<and> c \<noteq> CHR 0x0A) s)"

definition example_externals :: externals where
  "example_externals =
     \<lparr>IsValidBucket = (\<lambda>b. 3 \<le> length b \<and> length b \<le> 63),
      IsValidObjectName = (\<lambda>k. TrimSpace k \<noteq> [] \<and> length k \<le> 1024),
      IsValidBucketACL = (\<lambda>a. a = [] \<or> a = ''private'' \<or> a = ''public-read''
                               \<or> a = ''public-read-write''),
      IsValidPrefix = (\<lambda>p. length p \<le> 1024),
      md5_Sum = example_digest,
      base64_DecodeString = example_base64\<rparr>"

text \<open>A private bucket as \<open>MakeBucket\<close> creates it at time 0, with the given objects.\<close>

definition example_bucket :: "string \<Rightarrow> (string \<times> ObjectMetadata) list \<Rightarrow> storedBucket" where
  "example_bucket name objs =
     \<lparr>bucketMetadata = \<lparr>Name = name, BucketMetadata.Created = 0, ACL = ''private''\<rparr>,
      objectMetadata = objs, partMetadata = [], multiPartSession = []\<rparr>"

text \<open>The cache of the test suite (100000 bytes, one hour, no backend) with the empty bucket \<open>foo\<close>.\<close>

definition example_cache :: Cache where
  "example_cache =
     (NewCache 100000 Hour None)\<lparr>storedBuckets := [(''foo'', example_bucket ''foo'' [])]\<rparr>"


text \<open>Metadata as \<open>createObject\<close> records it at time 0 for an object of the given size.\<close>

definition example_object :: "string \<Rightarrow> string \<Rightarrow> bytes \<Rightarrow> ObjectMetadata" where
  "example_object bucket key bs =
     \<lparr>Bucket = bucket, Object = key,
      Metadata = [(''contentType'', ''application/octet-stream'')], Created = 0,
      MD5Sum = hex_EncodeToString (example_digest bs), Size = int (length bs)\<rparr>"

text \<open>The bucket \<open>foo\<close> with the object \<open>obj\<close> of three bytes, recorded and resident.\<close>

definition example_cache_obj :: Cache where
  "example_cache_obj =
     (NewCache 100000 Hour None)
       \<lparr>storedBuckets :=
          [(''foo'', example_bucket ''foo'' [(''foo/obj'', example_object ''foo'' ''obj'' [1, 2, 3])])],
        objects := \<lparr>items = [(''foo/obj'', [1, 2, 3])], trove_maxSize = 100000\<rparr>\<rparr>"

text \<open>
  A backend that holds the five bytes 1 to 5 under \<open>foo/obj\<close> and nothing else, and the
  cache of the empty bucket \<open>foo\<close> in front of it.
\<close>

definition example_donut :: Donut where
  "example_donut =
     \<lparr>donut_GetObject = (\<lambda>bucket object.
         if bucket = ''foo'' \<and> object = ''obj'' then Inr ([1, 2, 3, 4, 5], 5)
         else Inl (BackendError ''not found'')),
      donut_PutObject = (\<lambda>bucket key md5 data metadata. (Inl (BackendError ''read only''), data)),
      donut_MakeBucket = (\<lambda>bucket acl. Some (BackendError ''read only'')),
      donut_GetObjectMetadata = (\<lambda>bucket key. Inl (BackendError ''not found'')),
      donut_ListObjects = (\<lambda>bucket prefix marker delimiter maxkeys.
         Inl (BackendError ''not found''))\<rparr>"

definition example_cache_backed :: Cache where
  "example_cache_backed = example_cache\<lparr>donut := Some example_donut\<rparr>"

text \<open>The bucket \<open>foo5\<close> of the test suite with the objects \<open>obj1\<close> and \<open>obj2\<close>.\<close>

definition example_cache_listing :: Cache where
  "example_cache_listing =
     (NewCache 100000 Hour None)
       \<lparr>storedBuckets :=
          [(''foo5'', example_bucket ''foo5''
              [(''foo5/obj1'', example_object ''foo5'' ''obj1'' [1]),
               (''foo5/obj2'', example_object ''foo5'' ''obj2'' [2])])]\<rparr>"

definition example_resources :: BucketResourcesMetadata where
  "example_resources =
     \<lparr>Prefix = ''o'', Marker = [], NextMarker = [], Maxkeys = 10, Delimiter = ''1'',
      IsTruncated = False, CommonPrefixes = []\<rparr>"

text \<open>Ninety-nine buckets, \<open>bucket00\<close> to \<open>bucket98\<close>.\<close>

definition example_name :: "nat \<Rightarrow> string" where
  "example_name n = ''bucket'' @ [''0123456789'' ! (n div 10), ''0123456789'' ! (n mod 10)]"

definition example_cache_99 :: Cache where
  "example_cache_99 =
     (NewCache 100000 Hour None)
       \<lparr>storedBuckets := map (\<lambda>n. (example_name n, example_bucket (example_name n) [])) [0..<99]\<rparr>"

chapter \<open>Properties\<close>

section \<open>Ledger\<close>

lemma multipartExists_nil_map:
  "MultipartUploads m = None \<Longrightarrow> multipartExists m i = Some ErrInvalidUploadID"
  by (simp add: multipartExists_def)

lemma multipartExists_absent_key:
  "MultipartUploads m = Some mp \<Longrightarrow> mp i = None \<Longrightarrow> multipartExists m i = Some PanicNilPointer"
  by (simp add: multipartExists_def)

lemma multipartExists_present:
  "MultipartUploads m = Some mp \<Longrightarrow> mp i = Some u \<Longrightarrow>
   multipartExists m i = (if Id u = [] then Some ErrInvalidUploadID else None)"
  by (simp add: multipartExists_def)

lemma and_then_Inr [simp]: "and_then (Inr x) f = f x"
  by (simp add: and_then_def)

lemma and_then_Inl [simp]: "and_then (Inl e) f = Inl e"
  by (simp add: and_then_def)

lemma AbortMultipartUpload_unknown_id:
  assumes "bex bucket = Inr True"
  shows "MultipartUploads ls = None \<Longrightarrow>
           AbortMultipartUpload bex ls bucket i = Inl ErrInvalidUploadID"
    and "MultipartUploads ls = Some mp \<Longrightarrow> mp i = None \<Longrightarrow>
           AbortMultipartUpload bex ls bucket i = Inl PanicNilPointer"
  using assms by (simp_all add: AbortMultipartUpload_def multipartExists_def)

lemma AbortMultipartUpload_known_id:
  assumes "bex bucket = Inr True" "MultipartUploads ls = Some mp" "mp i = Some u" "Id u \<noteq> []"
  shows "AbortMultipartUpload bex ls bucket i
           = Inr (ls\<lparr>MultipartUploads := Some (mp(i := None))\<rparr>)"
    and "MultipartIDExists (ls\<lparr>MultipartUploads := Some (mp(i := None))\<rparr>) i
           = Some PanicNilPointer"
  using assms
  by (simp_all add: AbortMultipartUpload_def MultipartIDExists_def multipartExists_def
      deleteMultipartID_def)

lemma GetMultipartHashes_existing_session:
  assumes "bex bucket = Inr True" "MultipartUploads ls = Some mp" "mp i = Some u" "Id u \<noteq> []"
  shows "GetMultipartHashes bex ls bucket i
           = (case mp bucket of
                None \<Rightarrow> Inl PanicNilPointer
              | Some v \<Rightarrow> Inr (map DataHash (ObjectParts v)))"
  using assms
  by (simp add: GetMultipartHashes_def multipartExists_def lookupUpload_def)

text \<open>
  C6. Claimed: aborting an upload ID that has no session fails with \<open>ErrInvalidUploadID\<close>
  whatever the map of sessions holds, and after a successful abort the same ID fails
  \<open>MultipartIDExists\<close> with \<open>ErrInvalidUploadID\<close>. The code does so only while the map is nil.
  Once a session \<open>other\<close> has been opened, aborting the unknown ID \<open>missing\<close> panics on the
  nil pointer; and after opening and aborting \<open>id1\<close>, \<open>MultipartIDExists id1\<close> panics too.
\<close>

theorem AbortMultipartUpload_unknown_id_panics:
  "and_then (NewMultipartUpload only_bkt ledger0 ''bkt'' ''obj'' ''other'')
     (\<lambda>l1. AbortMultipartUpload only_bkt l1 ''bkt'' ''missing'') = Inl PanicNilPointer
   \<and> AbortMultipartUpload only_bkt ledger0 ''bkt'' ''missing'' = Inl ErrInvalidUploadID
   \<and> and_then (NewMultipartUpload only_bkt ledger0 ''bkt'' ''obj'' ''id1'')
       (\<lambda>l1. and_then (AbortMultipartUpload only_bkt l1 ''bkt'' ''id1'')
          (\<lambda>l2. Inr (MultipartIDExists l2 ''id1''))) = Inr (Some PanicNilPointer)"
  by (simp add: NewMultipartUpload_def AbortMultipartUpload_def MultipartIDExists_def
      multipartExists_def deleteMultipartID_def only_bkt_def ledger0_def)

text \<open>
  C7. Claimed: for an existing bucket and an existing session \<open>id\<close>, \<open>GetMultipartHashes\<close>
  returns the \<open>DataHash\<close> of every part recorded under \<open>id\<close>, in order. The code reads the
  session stored under the bucket's name instead: with one part recorded under \<open>id1\<close> in
  bucket \<open>bkt\<close> it panics on the nil pointer, and when a session happens to be named like
  the bucket it answers with that session's hashes.
\<close>

theorem GetMultipartHashes_reads_bucket_key:
  "and_then (NewMultipartUpload only_bkt ledger0 ''bkt'' ''obj'' ''id1'')
     (\<lambda>l1. and_then (PutObjectPart only_bkt l1 ''bkt'' ''obj'' ''h1'' ''id1'' 1)
        (\<lambda>l2. GetMultipartHashes only_bkt l2 ''bkt'' ''id1'')) = Inl PanicNilPointer
   \<and> and_then (NewMultipartUpload only_bkt ledger0 ''bkt'' ''obj'' ''id1'')
     (\<lambda>l1. and_then (PutObjectPart only_bkt l1 ''bkt'' ''obj'' ''h1'' ''id1'' 1)
        (\<lambda>l2. and_then (NewMultipartUpload only_bkt l2 ''bkt'' ''obj2'' ''bkt'')
           (\<lambda>l3. and_then (PutObjectPart only_bkt l3 ''bkt'' ''obj2'' ''h9'' ''bkt'' 1)
              (\<lambda>l4. GetMultipartHashes only_bkt l4 ''bkt'' ''id1'')))) = Inr [''h9'']"
  by (simp add: NewMultipartUpload_def PutObjectPart_def GetMultipartHashes_def
      multipartExists_def lookupUpload_def only_bkt_def ledger0_def)

section \<open>Lifecycle sweeper\<close>

lemma lifecycleIteration_always_calls_round:
  "count_list (lifecycleIteration e) CallLifecycleRound = 1"
  by (simp add: lifecycleIteration_def Let_def split: option.split round_error.split)

text \<open>
  C9. Claimed: an iteration that finds the last sweep non-zero and less than 24 hours old
  sleeps the one-hour tick and restarts the loop without calling \<open>lifecycleRound\<close>. In
  the code the sleep is the whole body of the \<open>if\<close>: with the last sweep one hour old the
  iteration sleeps one hour and then calls \<open>lifecycleRound\<close> all the same.
\<close>

theorem lifecycleIteration_sweeps_after_sleep:
  "lifecycleIteration
     \<lparr>clock = 100 * Hour, globalLifecycleOps = \<lparr>lifecycleOps.LastActivity = 99 * Hour\<rparr>,
      globalIsDistXL = False, peerStatus = [], roundResult = None\<rparr>
   = [Sleep bgLifecycleTick, CallLifecycleRound, LogIf None, Sleep Minute]"
  by (simp add: lifecycleIteration_def computeLastLifecycleActivity_def
      getLocalBgLifecycleOpsStatus_def IsZero_def After_def Since_def bgLifecycleInterval_def
      maxDuration_def minDuration_def Hour_def Minute_def Second_def)

section \<open>Object cache\<close>

subsection \<open>Hexadecimal strings and white space\<close>

lemma hextable_plain: "list_all plain hextable"
  by (simp add: hextable_def plain_def isSpace1_def)

lemma length_hextable: "length hextable = 16"
  by (simp add: hextable_def)

lemma hextable_nth_plain: "n < 16 \<Longrightarrow> plain (hextable ! n)"
  using hextable_plain by (simp add: list_all_length length_hextable)

lemma fromHexChar_table: "map fromHexChar hextable = map Some [0..<16]"
  by (simp add: hextable_def fromHexChar_def less_eq_char_def upt_rec)

lemma fromHexChar_hextable: "n < 16 \<Longrightarrow> fromHexChar (hextable ! n) = Some n"
proof -
  assume n: "n < 16"
  have "map fromHexChar hextable ! n = map Some [0..<16] ! n"
    by (simp only: fromHexChar_table)
  with n show ?thesis by (simp add: length_hextable del: upt_Suc)
qed

lemma byte_nibbles: "word_of_nat (unat (v :: byte) div 16 * 16 + unat v mod 16) = v"
  by simp

lemma hex_DecodeString_EncodeToString:
  "hex_DecodeString (hex_EncodeToString bs) = Some bs"
proof (induction bs)
  case Nil
  then show ?case by (simp add: hex_EncodeToString_def)
next
  case (Cons v bs)
  have "unat v < 256" using unsigned_less [of v, where 'a = nat] by simp
  then have d: "unat v div 16 < 16" by simp
  have m: "unat v mod 16 < 16" by simp
  have step: "hex_EncodeToString (v # bs)
      = hextable ! (unat v div 16) # hextable ! (unat v mod 16) # hex_EncodeToString bs"
    by (simp add: hex_EncodeToString_def)
  show ?case
    unfolding step
    by (simp only: hex_DecodeString.simps fromHexChar_hextable [OF d] fromHexChar_hextable [OF m]
        Cons.IH byte_nibbles prod.case option.case option.map)
qed

lemma TrimLeft_plain: "plain c \<Longrightarrow> TrimLeft (c # s) = c # s"
proof (cases s)
  case Nil
  assume "plain c"
  then show ?thesis using Nil by (simp add: plain_def)
next
  case (Cons d t)
  assume p: "plain c"
  show ?thesis
  proof (cases t)
    case Nil
    then show ?thesis using p Cons by (simp add: plain_def isSpace2_def)
  next
    case (Cons e u)
    then show ?thesis using p \<open>s = d # t\<close> by (simp add: plain_def isSpace2_def isSpace3_def)
  qed
qed

lemma TrimRightRev_plain: "plain c \<Longrightarrow> TrimRightRev (c # s) = c # s"
proof (cases s)
  case Nil
  assume "plain c"
  then show ?thesis using Nil by (simp add: plain_def)
next
  case (Cons d t)
  assume p: "plain c"
  show ?thesis
  proof (cases t)
    case Nil
    then show ?thesis using p Cons by (simp add: plain_def isSpace2_def)
  next
    case (Cons e u)
    then show ?thesis using p \<open>s = d # t\<close> by (simp add: plain_def isSpace2_def isSpace3_def)
  qed
qed

lemma TrimSpace_plain:
  assumes "s = [] \<or> (plain (hd s) \<and> plain (last s))"
  shows "TrimSpace s = s"
proof (cases s rule: rev_cases)
  case Nil
  then show ?thesis by (simp add: TrimSpace_def)
next
  case (snoc t l)
  with assms have l: "plain l" and h: "plain (hd s)" by auto
  have "s \<noteq> []" using snoc by simp
  then obtain c u where cu: "s = c # u" by (cases s) auto
  with h have "plain c" by simp
  then have "TrimLeft s = s" using cu by (simp add: TrimLeft_plain)
  moreover have "rev s = l # rev t" using snoc by simp
  ultimately show ?thesis using l by (simp add: TrimSpace_def TrimRightRev_plain snoc)
qed

lemma hex_EncodeToString_plain:
  "list_all plain (hex_EncodeToString bs)"
proof (induction bs)
  case Nil
  then show ?case by (simp add: hex_EncodeToString_def)
next
  case (Cons v bs)
  have "unat v < 256" using unsigned_less [of v, where 'a = nat] by simp
  then have d: "unat v div 16 < 16" by simp
  have m: "unat v mod 16 < 16" by simp
  have step: "hex_EncodeToString (v # bs)
      = hextable ! (unat v div 16) # hextable ! (unat v mod 16) # hex_EncodeToString bs"
    by (simp add: hex_EncodeToString_def)
  show ?case unfolding step using Cons hextable_nth_plain [OF d] hextable_nth_plain [OF m]
    by simp
qed

lemma TrimSpace_hex: "TrimSpace (hex_EncodeToString bs) = hex_EncodeToString bs"
proof (rule TrimSpace_plain)
  show "hex_EncodeToString bs = [] \<or> plain (hd (hex_EncodeToString bs)) \<and> plain (last (hex_EncodeToString bs))"
  proof (cases "hex_EncodeToString bs = []")
    case True
    then show ?thesis by simp
  next
    case False
    then have "hd (hex_EncodeToString bs) \<in> set (hex_EncodeToString bs)"
      and "last (hex_EncodeToString bs) \<in> set (hex_EncodeToString bs)" by simp_all
    then show ?thesis using hex_EncodeToString_plain [of bs] by (simp add: list_all_iff)
  qed
qed

lemma hex_EncodeToString_eq_Nil: "hex_EncodeToString bs = [] \<longleftrightarrow> bs = []"
  by (cases bs) (simp_all add: hex_EncodeToString_def)

subsection \<open>The byte cache with room, and the read loop of createObject\<close>

lemma trove_evict_fits:
  "trove_currentSize its + need \<le> maxSz \<Longrightarrow> trove_evict maxSz need its = (its, [])"
  by (cases its) simp_all

lemma trove_makeRoom_hasRoom:
  "hasRoom t n \<Longrightarrow> trove_makeRoom t n = (items t, [])"
  by (auto simp: hasRoom_def trove_makeRoom_def trove_evict_fits)

lemma trove_Append_hasRoom:
  assumes "hasRoom t (length v)"
  shows "trove_Append t key v =
           (True,
            t\<lparr>items := AList.update key
                (case map_of (items t) key of None \<Rightarrow> v | Some old \<Rightarrow> old @ v) (items t)\<rparr>,
            [])"
proof -
  have "\<not> (trove_maxSize t > 0 \<and> length v > trove_maxSize t)"
    using assms by (auto simp: hasRoom_def)
  then show ?thesis
    using trove_makeRoom_hasRoom [OF assms] by (simp add: trove_Append_def)
qed

lemma trove_currentSize_update:
  "trove_currentSize (AList.update key (case map_of its key of None \<Rightarrow> v | Some old \<Rightarrow> old @ v) its)
     = trove_currentSize its + length v"
  by (induction its) (auto simp: trove_currentSize_def)

lemma objects_Append_hasRoom:
  assumes "hasRoom (objects cache) (length v)"
  shows "objects_Append cache key v =
           (True,
            cache\<lparr>objects := (objects cache)\<lparr>items := AList.update key
                (case map_of (items (objects cache)) key of None \<Rightarrow> v | Some old \<Rightarrow> old @ v)
                (items (objects cache))\<rparr>\<rparr>)"
  by (simp add: objects_Append_def trove_Append_hasRoom [OF assms])

lemma append_case_bytesUnder:
  "(case map_of (items t) key of None \<Rightarrow> v | Some old \<Rightarrow> old @ v) = bytesUnder t key @ v"
  by (simp add: bytesUnder_def split: option.split)

lemma createObject_loop_Nil:
  "createObject_loop cache key [] hashed tot = (Inr (Some EOF, hashed, tot), cache, [])"
  by (subst createObject_loop.simps) (simp add: reader_Read_def)

lemma createObject_loop_step:
  assumes "data \<noteq> []" and "objects_Append cache key (take chunkSize data) = (True, cache1)"
  shows "createObject_loop cache key data hashed tot =
           createObject_loop cache1 key (drop chunkSize data) (hashed @ take chunkSize data)
             (tot + int (length (take chunkSize data)))"
  using assms
  by (subst createObject_loop.simps) (simp add: reader_Read_def chunkSize_def)

lemma createObject_loop_refused:
  assumes "data \<noteq> []" and "objects_Append cache key (take chunkSize data) = (False, cache1)"
  shows "createObject_loop cache key data hashed tot =
           (Inl InternalError, cache1, drop chunkSize data)"
  using assms
  by (subst createObject_loop.simps) (simp add: reader_Read_def chunkSize_def)

lemma createObject_loop_hasRoom:
  "hasRoom (objects cache) (length data) \<Longrightarrow>
   createObject_loop cache key data hashed tot =
     (Inr (Some EOF, hashed @ data, tot + int (length data)),
      (if data = [] then cache
       else cache\<lparr>objects := (objects cache)\<lparr>items :=
              AList.update key (bytesUnder (objects cache) key @ data) (items (objects cache))\<rparr>\<rparr>),
      [])"
proof (induction "length data" arbitrary: data cache hashed tot rule: less_induct)
  case less
  show ?case
  proof (cases "data = []")
    case True
    then show ?thesis by (simp add: createObject_loop_Nil)
  next
    case False
    define chunk where "chunk = take chunkSize data"
    define rest where "rest = drop chunkSize data"
    define cache1 where "cache1 = cache\<lparr>objects := (objects cache)\<lparr>items :=
        AList.update key (bytesUnder (objects cache) key @ chunk) (items (objects cache))\<rparr>\<rparr>"
    have data: "data = chunk @ rest" by (simp add: chunk_def rest_def)
    have chunk_ne: "chunk \<noteq> []" using False by (simp add: chunk_def chunkSize_def)
    have shorter: "length rest < length data" using chunk_ne data
      by (metis length_append length_greater_0_conv less_add_same_cancel2)
    have room_chunk: "hasRoom (objects cache) (length chunk)"
      using less.prems data by (auto simp: hasRoom_def)
    have app: "objects_Append cache key chunk = (True, cache1)"
      using objects_Append_hasRoom [OF room_chunk, of key]
      by (simp add: cache1_def append_case_bytesUnder)
    have size1: "trove_currentSize (items (objects cache1))
        = trove_currentSize (items (objects cache)) + length chunk"
      using trove_currentSize_update [of key chunk "items (objects cache)"]
      by (simp add: cache1_def append_case_bytesUnder)
    have room_rest: "hasRoom (objects cache1) (length rest)"
      using less.prems data size1 by (auto simp: hasRoom_def cache1_def)
    have under1: "bytesUnder (objects cache1) key = bytesUnder (objects cache) key @ chunk"
      by (simp add: cache1_def bytesUnder_def update_conv')
    have step: "createObject_loop cache key data hashed tot =
        createObject_loop cache1 key rest (hashed @ chunk) (tot + int (length chunk))"
      using createObject_loop_step [OF False, of cache key cache1] app
      by (simp add: chunk_def rest_def)
    have ih: "createObject_loop cache1 key rest (hashed @ chunk) (tot + int (length chunk)) =
        (Inr (Some EOF, (hashed @ chunk) @ rest, (tot + int (length chunk)) + int (length rest)),
         (if rest = [] then cache1
          else cache1\<lparr>objects := (objects cache1)\<lparr>items :=
                 AList.update key (bytesUnder (objects cache1) key @ rest) (items (objects cache1))\<rparr>\<rparr>),
         [])"
      by (rule less.hyps [OF shorter room_rest])
    show ?thesis
    proof (cases "rest = []")
      case True
      then have "data = chunk" using data by simp
      then show ?thesis using step ih True False by (simp add: cache1_def)
    next
      case rest_ne: False
      have "data = chunk @ rest" by (rule data)
      then show ?thesis using step ih rest_ne False under1
        by (simp add: cache1_def)
    qed
  qed
qed

lemma isMD5SumEqual_same:
  "e \<noteq> [] \<Longrightarrow> isMD5SumEqual (hex_EncodeToString e) (hex_EncodeToString e) = None"
  by (simp add: isMD5SumEqual_def TrimSpace_hex hex_EncodeToString_eq_Nil
      hex_DecodeString_EncodeToString)

lemma isMD5SumEqual_differ:
  "e \<noteq> a \<Longrightarrow> isMD5SumEqual (hex_EncodeToString e) (hex_EncodeToString a) \<noteq> None"
  by (simp add: isMD5SumEqual_def TrimSpace_hex hex_EncodeToString_eq_Nil
      hex_DecodeString_EncodeToString)

lemma createObject_stores:
  assumes vb: "IsValidBucket x bucket" and vk: "IsValidObjectName x key"
    and sb: "map_of (storedBuckets cache) bucket = Some sb"
    and fresh: "map_of (objectMetadata sb) (bucket @ ''/'' @ key) = None"
    and nd: "donut cache = None"
    and room: "hasRoom (objects cache) (length bs)"
    and digest: "TrimSpace expectedMD5Sum = []
                 \<or> base64_DecodeString x (TrimSpace expectedMD5Sum) = Some (md5_Sum x bs)"
  shows "createObject x now cache bucket key contentType expectedMD5Sum size' bs =
           (Inr \<lparr>Bucket = bucket, Object = key,
                 Metadata = [(''contentType'',
                    TrimSpace (if contentType = [] then ''application/octet-stream'' else contentType))],
                 Created = now, MD5Sum = hex_EncodeToString (md5_Sum x bs),
                 Size = int (length bs)\<rparr>,
            putObjectMetadata
              (if bs = [] then cache
               else cache\<lparr>objects := (objects cache)\<lparr>items :=
                      AList.update (bucket @ ''/'' @ key)
                        (bytesUnder (objects cache) (bucket @ ''/'' @ key) @ bs)
                        (items (objects cache))\<rparr>\<rparr>)
              bucket sb (bucket @ ''/'' @ key)
              \<lparr>Bucket = bucket, Object = key,
                Metadata = [(''contentType'',
                   TrimSpace (if contentType = [] then ''application/octet-stream'' else contentType))],
                Created = now, MD5Sum = hex_EncodeToString (md5_Sum x bs),
                Size = int (length bs)\<rparr>,
            [])"
proof -
  have loop: "createObject_loop cache (bucket @ ''/'' @ key) bs [] 0 =
     (Inr (Some EOF, bs, int (length bs)),
      (if bs = [] then cache
       else cache\<lparr>objects := (objects cache)\<lparr>items :=
              AList.update (bucket @ ''/'' @ key)
                (bytesUnder (objects cache) (bucket @ ''/'' @ key) @ bs)
                (items (objects cache))\<rparr>\<rparr>),
      [])"
    using createObject_loop_hasRoom [OF room, of "bucket @ ''/'' @ key" "[]" 0] by simp
  from digest show ?thesis
  proof
    assume e: "TrimSpace expectedMD5Sum = []"
    show ?thesis
      unfolding createObject_def Let_def
      by (simp only: vb vk sb fresh nd e loop if_False if_True option.case
          prod.case sum.case simp_thms cache_error.simps)
  next
    assume d: "base64_DecodeString x (TrimSpace expectedMD5Sum) = Some (md5_Sum x bs)"
    have chk: "\<not> (TrimSpace (hex_EncodeToString (md5_Sum x bs)) \<noteq> []
        \<and> isMD5SumEqual (TrimSpace (hex_EncodeToString (md5_Sum x bs)))
             (hex_EncodeToString (md5_Sum x bs)) \<noteq> None)"
      by (cases "md5_Sum x bs = []")
         (simp_all add: TrimSpace_hex hex_EncodeToString_eq_Nil isMD5SumEqual_same)
    show ?thesis
    proof (cases "TrimSpace expectedMD5Sum = []")
      case True
      then show ?thesis
        unfolding createObject_def Let_def
        by (simp only: vb vk sb fresh nd loop if_False if_True option.case
            prod.case sum.case simp_thms cache_error.simps)
    next
      case False
      then show ?thesis
        unfolding createObject_def Let_def
        using chk
        by (simp only: vb vk sb fresh nd d loop if_False if_True option.case
            prod.case sum.case simp_thms cache_error.simps)
    qed
  qed
qed

subsection \<open>The read loop when the byte cache may evict\<close>

lemma trove_evict_maxSize_free:
  "\<exists>its' ev. trove_evict maxSz need its = (its', ev)"
  by (cases "trove_evict maxSz need its") auto

lemma trove_Append_accepts:
  assumes "accepts t (length v)"
  shows "\<exists>t' ev. trove_Append t key v = (True, t', ev) \<and> trove_maxSize t' = trove_maxSize t"
proof -
  have "\<not> (trove_maxSize t > 0 \<and> length v > trove_maxSize t)"
    using assms by (auto simp: accepts_def)
  then show ?thesis
    by (cases "trove_makeRoom t (length v)") (simp add: trove_Append_def)
qed

lemma objects_expiredObject [simp]: "objects (expiredObject cache key) = objects cache"
  by (simp add: expiredObject_def)

lemma objects_foldl_expiredObject [simp]:
  "objects (foldl expiredObject cache ev) = objects cache"
  by (induction ev arbitrary: cache) simp_all

lemma objectRecorded_expiredObject:
  "\<not> objectRecorded cache b k \<Longrightarrow> \<not> objectRecorded (expiredObject cache key) b k"
  by (auto simp: objectRecorded_def expiredObject_def map_of_map delete_conv'
      split: option.splits)

lemma objectRecorded_foldl_expiredObject:
  "\<not> objectRecorded cache b k \<Longrightarrow> \<not> objectRecorded (foldl expiredObject cache ev) b k"
  by (induction ev arbitrary: cache) (simp_all add: objectRecorded_expiredObject)

lemma objectRecorded_objects_update [simp]:
  "objectRecorded (cache\<lparr>objects := t\<rparr>) b k = objectRecorded cache b k"
  by (simp add: objectRecorded_def)

lemma objects_Append_accepts:
  assumes "accepts (objects cache) (length v)"
  shows "\<exists>cache'. objects_Append cache key v = (True, cache')
           \<and> trove_maxSize (objects cache') = trove_maxSize (objects cache)
           \<and> (\<not> objectRecorded cache b k \<longrightarrow> \<not> objectRecorded cache' b k)"
proof -
  obtain t' ev where a: "trove_Append (objects cache) key v = (True, t', ev)"
    and m: "trove_maxSize t' = trove_maxSize (objects cache)"
    using trove_Append_accepts [OF assms] by blast
  show ?thesis
    using a m objectRecorded_foldl_expiredObject [of "cache\<lparr>objects := t'\<rparr>" b k ev]
    by (simp add: objects_Append_def)
qed

lemma createObject_loop_accepts:
  "accepts (objects cache) (length data) \<Longrightarrow> \<not> objectRecorded cache b k \<Longrightarrow>
   \<exists>cache'. createObject_loop cache key data hashed tot =
              (Inr (Some EOF, hashed @ data, tot + int (length data)), cache', [])
           \<and> \<not> objectRecorded cache' b k"
proof (induction "length data" arbitrary: data cache hashed tot rule: less_induct)
  case less
  show ?case
  proof (cases "data = []")
    case True
    then show ?thesis using less.prems by (simp add: createObject_loop_Nil)
  next
    case False
    define chunk where "chunk = take chunkSize data"
    define rest where "rest = drop chunkSize data"
    have data: "data = chunk @ rest" by (simp add: chunk_def rest_def)
    have chunk_ne: "chunk \<noteq> []" using False by (simp add: chunk_def chunkSize_def)
    have shorter: "length rest < length data" using chunk_ne data
      by (metis length_append length_greater_0_conv less_add_same_cancel2)
    have acc_chunk: "accepts (objects cache) (length chunk)"
      using less.prems(1) data by (auto simp: accepts_def)
    obtain cache1 where app: "objects_Append cache key chunk = (True, cache1)"
      and m1: "trove_maxSize (objects cache1) = trove_maxSize (objects cache)"
      and r1: "\<not> objectRecorded cache1 b k"
      using objects_Append_accepts [OF acc_chunk, of key b k] less.prems(2) by blast
    have acc_rest: "accepts (objects cache1) (length rest)"
      using less.prems(1) data m1 by (auto simp: accepts_def)
    have step: "createObject_loop cache key data hashed tot =
        createObject_loop cache1 key rest (hashed @ chunk) (tot + int (length chunk))"
      using createObject_loop_step [OF False, of cache key cache1] app
      by (simp add: chunk_def rest_def)
    obtain cache' where
      ih: "createObject_loop cache1 key rest (hashed @ chunk) (tot + int (length chunk)) =
        (Inr (Some EOF, (hashed @ chunk) @ rest, (tot + int (length chunk)) + int (length rest)),
         cache', [])"
      and r': "\<not> objectRecorded cache' b k"
      using less.hyps [OF shorter acc_rest r1] by blast
    have "createObject_loop cache key data hashed tot =
        (Inr (Some EOF, hashed @ data, tot + int (length data)), cache', [])"
      using step ih data by simp
    then show ?thesis using r' by blast
  qed
qed

lemma createObject_mismatch:
  assumes vb: "IsValidBucket x bucket" and vk: "IsValidObjectName x key"
    and sb: "map_of (storedBuckets cache) bucket = Some sb"
    and fresh: "map_of (objectMetadata sb) (bucket @ ''/'' @ key) = None"
    and nd: "donut cache = None"
    and acc: "accepts (objects cache) (length bs)"
    and supplied: "TrimSpace expectedMD5Sum \<noteq> []"
    and dec: "base64_DecodeString x (TrimSpace expectedMD5Sum) = Some e"
    and ne: "e \<noteq> []"
    and differ: "e \<noteq> md5_Sum x bs"
  shows "\<exists>cache'. createObject x now cache bucket key contentType expectedMD5Sum size' bs =
           (Inl BadDigest, cache', [])
         \<and> \<not> objectRecorded cache' bucket (bucket @ ''/'' @ key)"
proof -
  have nr: "\<not> objectRecorded cache bucket (bucket @ ''/'' @ key)"
    using sb fresh by (simp add: objectRecorded_def)
  obtain cache' where
    loop: "createObject_loop cache (bucket @ ''/'' @ key) bs [] 0 =
       (Inr (Some EOF, bs, int (length bs)), cache', [])"
    and r': "\<not> objectRecorded cache' bucket (bucket @ ''/'' @ key)"
    using createObject_loop_accepts [OF acc nr, of "bucket @ ''/'' @ key" "[]" 0] by auto
  have chk: "TrimSpace (hex_EncodeToString e) \<noteq> []
      \<and> isMD5SumEqual (TrimSpace (hex_EncodeToString e)) (hex_EncodeToString (md5_Sum x bs)) \<noteq> None"
    using ne differ by (simp add: TrimSpace_hex hex_EncodeToString_eq_Nil isMD5SumEqual_differ)
  have "createObject x now cache bucket key contentType expectedMD5Sum size' bs =
           (Inl BadDigest, cache', [])"
    unfolding createObject_def Let_def
    using chk supplied
    by (simp only: vb vk sb fresh nd dec loop if_False if_True option.case
        prod.case sum.case simp_thms cache_error.simps)
  then show ?thesis using r' by blast
qed

subsection \<open>Creating an object and reading it back\<close>

lemma CopyN_all:
  "CopyN buffer_Write w data (int (length data)) = (int (length data), None, w @ data, [])"
  by (simp add: CopyN_def buffer_Write_def)

lemma GetObject_hit:
  assumes "IsValidBucket x bucket" "IsValidObjectName x object"
    and "map_of (storedBuckets cache) bucket \<noteq> None"
    and "trove_Get (objects cache) (bucket @ ''/'' @ object) = Some data"
  shows "GetObject x cache w bucket object = (Inr (int (length data)), w @ data, cache)"
proof -
  have len: "trove_Len (objects cache) (bucket @ ''/'' @ object) = length data"
    using assms(4) by (simp add: trove_Len_def trove_Get_def)
  show ?thesis
    using assms len by (simp add: GetObject_def Let_def CopyN_all)
qed

lemma GetObjectMetadata_recorded:
  assumes "IsValidBucket x bucket" "IsValidObjectName x key"
    and "map_of (storedBuckets cache) bucket = Some sb"
    and "map_of (objectMetadata sb) (bucket @ ''/'' @ key) = Some m"
  shows "GetObjectMetadata x cache bucket key = (Inr m, cache)"
  using assms by (simp add: GetObjectMetadata_def Let_def)

lemma putObjectMetadata_lookup:
  "map_of (storedBuckets cache) bucket = Some cur \<Longrightarrow>
   map_of (storedBuckets (putObjectMetadata cache bucket sb k m)) bucket
     = Some (cur\<lparr>bucketMetadata := bucketMetadata sb,
                objectMetadata := AList.update k m (objectMetadata cur)\<rparr>)"
  by (simp add: putObjectMetadata_def update_conv')

lemma objects_putObjectMetadata [simp]:
  "objects (putObjectMetadata cache bucket sb k m) = objects cache"
  by (simp add: putObjectMetadata_def Let_def)

text \<open>
  What holds of \<open>CreateObject\<close>, \<open>GetObject\<close> and \<open>GetObjectMetadata\<close> in a row: for
  valid names, a bucket without backend, a key that has neither metadata nor bytes in the
  cache, and a byte sequence that is not empty, is within the configured maximum and fits
  into the byte cache as it is, with a digest that is blank or is the digest of the bytes,
  the object is created, read back byte for byte, and described with its size and digest.
\<close>

lemma CreateObject_then_GetObject:
  assumes vb: "IsValidBucket x bucket" and vk: "IsValidObjectName x key"
    and sb: "map_of (storedBuckets cache) bucket = Some sb"
    and fresh: "map_of (objectMetadata sb) (bucket @ ''/'' @ key) = None"
    and nd: "donut cache = None"
    and small: "int (length bs) \<le> sint (maxSize cache)"
    and nonempty: "bs \<noteq> []"
    and absent: "trove_Get (objects cache) (bucket @ ''/'' @ key) = None"
    and room: "hasRoom (objects cache) (length bs)"
    and digest: "TrimSpace expectedMD5Sum = []
                 \<or> base64_DecodeString x (TrimSpace expectedMD5Sum) = Some (md5_Sum x bs)"
  shows "\<exists>meta cache'.
           CreateObject x now cache bucket key contentType expectedMD5Sum (int (length bs)) bs
             = (Inr meta, cache', [])
         \<and> GetObject x cache' w bucket key = (Inr (int (length bs)), w @ bs, cache')
         \<and> GetObjectMetadata x cache' bucket key = (Inr meta, cache')
         \<and> Size meta = int (length bs)
         \<and> MD5Sum meta = hex_EncodeToString (md5_Sum x bs)"
proof -
  define objectKey where "objectKey = bucket @ ''/'' @ key"
  define meta where "meta =
     \<lparr>Bucket = bucket, Object = key,
      Metadata = [(''contentType'',
         TrimSpace (if contentType = [] then ''application/octet-stream'' else contentType))],
      Created = now, MD5Sum = hex_EncodeToString (md5_Sum x bs), Size = int (length bs)\<rparr>"
  define cache1 where "cache1 = cache\<lparr>objects := (objects cache)\<lparr>items :=
     AList.update objectKey (bytesUnder (objects cache) objectKey @ bs) (items (objects cache))\<rparr>\<rparr>"
  define cache' where "cache' = putObjectMetadata cache1 bucket sb objectKey meta"
  have created: "CreateObject x now cache bucket key contentType expectedMD5Sum (int (length bs)) bs
      = (Inr meta, cache', [])"
    using createObject_stores [OF vb vk sb fresh nd room digest, of now contentType "int (length bs)"]
      small nonempty
    by (simp add: CreateObject_def meta_def cache'_def cache1_def objectKey_def)
  have under: "bytesUnder (objects cache) objectKey = []"
    using absent by (simp add: bytesUnder_def trove_Get_def objectKey_def)
  have sb1: "map_of (storedBuckets cache1) bucket = Some sb"
    using sb by (simp add: cache1_def)
  have sb': "map_of (storedBuckets cache') bucket
      = Some (sb\<lparr>bucketMetadata := bucketMetadata sb,
                 objectMetadata := AList.update objectKey meta (objectMetadata sb)\<rparr>)"
    unfolding cache'_def by (rule putObjectMetadata_lookup [OF sb1])
  have resident: "trove_Get (objects cache') (bucket @ ''/'' @ key) = Some bs"
    using under by (simp add: cache'_def cache1_def trove_Get_def update_conv' objectKey_def)
  have got: "GetObject x cache' w bucket key = (Inr (int (length bs)), w @ bs, cache')"
    by (rule GetObject_hit [OF vb vk _ resident]) (simp add: sb')
  have md: "GetObjectMetadata x cache' bucket key = (Inr meta, cache')"
    by (rule GetObjectMetadata_recorded [OF vb vk sb']) (simp add: update_conv' objectKey_def)
  show ?thesis
    using created got md by (intro exI [of _ meta] exI [of _ cache']) (simp add: meta_def)
qed

lemma TrimSpace_Nil: "TrimSpace [] = []"
  by (simp add: TrimSpace_def)

lemma example_cache_reachable:
  "MakeBucket example_externals 0 (NewCache 100000 Hour None) ''foo'' ''private''
     = (None, example_cache)"
  by (simp add: MakeBucket_def NewCache_def example_cache_def example_bucket_def
      example_externals_def totalBuckets_def TrimSpace_def isSpace1_def isSpace2_def isSpace3_def)

text \<open>
  The lemma at the two bytes "Hi" in the bucket \<open>foo\<close> of the example cache.
\<close>

lemma CreateObject_then_GetObject_example:
  "IsValidBucket example_externals ''foo'' \<and> IsValidObjectName example_externals ''obj''
   \<and> map_of (storedBuckets example_cache) ''foo'' = Some (example_bucket ''foo'' [])
   \<and> map_of (objectMetadata (example_bucket ''foo'' [])) (''foo'' @ ''/'' @ ''obj'') = None
   \<and> donut example_cache = None
   \<and> int (length [72, 105 :: byte]) \<le> sint (maxSize example_cache)
   \<and> [72, 105 :: byte] \<noteq> []
   \<and> trove_Get (objects example_cache) (''foo'' @ ''/'' @ ''obj'') = None
   \<and> hasRoom (objects example_cache) (length [72, 105 :: byte])
   \<and> TrimSpace [] = []
   \<and> (\<exists>meta cache'.
         CreateObject example_externals 0 example_cache ''foo'' ''obj'' [] []
             (int (length [72, 105 :: byte])) [72, 105]
           = (Inr meta, cache', [])
       \<and> GetObject example_externals cache' [] ''foo'' ''obj''
           = (Inr (int (length [72, 105 :: byte])), [] @ [72, 105], cache')
       \<and> GetObjectMetadata example_externals cache' ''foo'' ''obj'' = (Inr meta, cache')
       \<and> Size meta = int (length [72, 105 :: byte])
       \<and> MD5Sum meta = hex_EncodeToString (md5_Sum example_externals [72, 105]))"
proof -
  have vb: "IsValidBucket example_externals ''foo''" by (simp add: example_externals_def)
  have vk: "IsValidObjectName example_externals ''obj''"
    by (simp add: example_externals_def TrimSpace_def isSpace1_def isSpace2_def isSpace3_def)
  have sb: "map_of (storedBuckets example_cache) ''foo'' = Some (example_bucket ''foo'' [])"
    by (simp add: example_cache_def)
  have fresh: "map_of (objectMetadata (example_bucket ''foo'' [])) (''foo'' @ ''/'' @ ''obj'') = None"
    by (simp add: example_bucket_def)
  have nd: "donut example_cache = None" by (simp add: example_cache_def NewCache_def)
  have small: "int (length [72, 105 :: byte]) \<le> sint (maxSize example_cache)"
    by (simp add: example_cache_def NewCache_def)
  have nonempty: "[72, 105 :: byte] \<noteq> []" by simp
  have absent: "trove_Get (objects example_cache) (''foo'' @ ''/'' @ ''obj'') = None"
    by (simp add: example_cache_def NewCache_def trove_Get_def)
  have room: "hasRoom (objects example_cache) (length [72, 105 :: byte])"
    by (simp add: example_cache_def NewCache_def hasRoom_def trove_currentSize_def)
  have trim: "TrimSpace [] = []" by (simp add: TrimSpace_def)
  have digest: "TrimSpace [] = []
      \<or> base64_DecodeString example_externals (TrimSpace []) = Some (md5_Sum example_externals [72, 105])"
    using trim by simp
  show ?thesis
    using CreateObject_then_GetObject [OF vb vk sb fresh nd small nonempty absent room digest,
        of 0 "[]" "[]"]
      vb vk sb fresh nd small nonempty absent room trim
    by blast
qed

text \<open>
  C1. Claimed: for every existing bucket (no backend), every valid key not present in it
  and every byte sequence within the configured maximum, \<open>CreateObject\<close> succeeds, a
  following \<open>GetObject\<close> writes exactly those bytes and returns their length, and
  \<open>GetObjectMetadata\<close> reports their size and digest. The empty byte sequence is such a
  sequence: \<open>CreateObject\<close> succeeds and records metadata of size 0, but the loop leaves at
  the first read without appending anything, so the byte cache has no entry under the key
  and \<open>GetObject\<close> fails with \<open>ObjectNotFound\<close>, while \<open>GetObjectMetadata\<close> finds the object.
\<close>

theorem CreateObject_empty_then_GetObject_not_found:
  "fst (CreateObject example_externals 0 example_cache ''foo'' ''obj'' [] [] 0 [])
     = Inr \<lparr>Bucket = ''foo'', Object = ''obj'',
            Metadata = [(''contentType'', ''application/octet-stream'')], Created = 0,
            MD5Sum = ''0000'', Size = 0\<rparr>
   \<and> fst (GetObject example_externals
            (fst (snd (CreateObject example_externals 0 example_cache ''foo'' ''obj'' [] [] 0 [])))
            [] ''foo'' ''obj'')
     = Inl (ObjectNotFound ''obj'')
   \<and> fst (GetObjectMetadata example_externals
            (fst (snd (CreateObject example_externals 0 example_cache ''foo'' ''obj'' [] [] 0 [])))
            ''foo'' ''obj'')
     = Inr \<lparr>Bucket = ''foo'', Object = ''obj'',
            Metadata = [(''contentType'', ''application/octet-stream'')], Created = 0,
            MD5Sum = ''0000'', Size = 0\<rparr>"
  by (simp add: CreateObject_def createObject_def createObject_loop_Nil GetObject_def
      GetObjectMetadata_def putObjectMetadata_def example_cache_def example_bucket_def
      NewCache_def example_externals_def example_digest_def hex_EncodeToString_def hextable_def
      trove_Get_def TrimSpace_def isSpace1_def isSpace2_def isSpace3_def Let_def)

subsection \<open>A digest that does not match\<close>

text \<open>
  C3, as amended. For valid names, an existing bucket without backend, a key without
  metadata, a declared size that is not above the configured maximum, and bytes that the
  byte cache accepts: when the expected digest is supplied (not blank), decodes from
  base64 to a digest \<open>e\<close> (which is then not empty) and \<open>e\<close> is not the digest of the bytes
  read, \<open>CreateObject\<close> fails with \<open>BadDigest\<close>, after reading all the bytes, and the bucket
  has no metadata under the key afterwards.
\<close>

theorem CreateObject_digest_mismatch:
  assumes vb: "IsValidBucket x bucket" and vk: "IsValidObjectName x key"
    and sb: "map_of (storedBuckets cache) bucket = Some sb"
    and fresh: "map_of (objectMetadata sb) (bucket @ ''/'' @ key) = None"
    and nd: "donut cache = None"
    and small: "size' \<le> sint (maxSize cache)"
    and acc: "accepts (objects cache) (length bs)"
    and supplied: "TrimSpace expectedMD5Sum \<noteq> []"
    and dec: "base64_DecodeString x (TrimSpace expectedMD5Sum) = Some e"
    and ne: "e \<noteq> []"
    and differ: "e \<noteq> md5_Sum x bs"
  shows "\<exists>cache'. CreateObject x now cache bucket key contentType expectedMD5Sum size' bs
                     = (Inl BadDigest, cache', [])
                 \<and> \<not> objectRecorded cache' bucket (bucket @ ''/'' @ key)"
  using createObject_mismatch [OF vb vk sb fresh nd acc supplied dec ne differ,
      of now contentType size'] small
  by (simp add: CreateObject_def)

lemma example_base64_AQI: "example_base64 ''AQI='' = Some [1, 2]"
  by (simp add: example_base64_def base64_value_def less_eq_char_def)

text \<open>
  The theorem at the bytes 1, 2, 3 with the expected digest \<open>AQI=\<close>, which decodes to 1, 2.
\<close>

theorem CreateObject_digest_mismatch_witness:
  "IsValidBucket example_externals ''foo'' \<and> IsValidObjectName example_externals ''obj''
   \<and> map_of (storedBuckets example_cache) ''foo'' = Some (example_bucket ''foo'' [])
   \<and> map_of (objectMetadata (example_bucket ''foo'' [])) (''foo'' @ ''/'' @ ''obj'') = None
   \<and> donut example_cache = None
   \<and> 3 \<le> sint (maxSize example_cache)
   \<and> accepts (objects example_cache) (length [1, 2, 3 :: byte])
   \<and> TrimSpace ''AQI='' \<noteq> []
   \<and> base64_DecodeString example_externals (TrimSpace ''AQI='') = Some [1, 2]
   \<and> [1, 2 :: byte] \<noteq> []
   \<and> [1, 2] \<noteq> md5_Sum example_externals [1, 2, 3]
   \<and> (\<exists>cache'. CreateObject example_externals 0 example_cache ''foo'' ''obj'' [] ''AQI='' 3 [1, 2, 3]
                   = (Inl BadDigest, cache', [])
               \<and> \<not> objectRecorded cache' ''foo'' (''foo'' @ ''/'' @ ''obj''))"
proof -
  have vb: "IsValidBucket example_externals ''foo''" by (simp add: example_externals_def)
  have vk: "IsValidObjectName example_externals ''obj''"
    by (simp add: example_externals_def TrimSpace_def isSpace1_def isSpace2_def isSpace3_def)
  have sb: "map_of (storedBuckets example_cache) ''foo'' = Some (example_bucket ''foo'' [])"
    by (simp add: example_cache_def)
  have fresh: "map_of (objectMetadata (example_bucket ''foo'' [])) (''foo'' @ ''/'' @ ''obj'') = None"
    by (simp add: example_bucket_def)
  have nd: "donut example_cache = None" by (simp add: example_cache_def NewCache_def)
  have small: "3 \<le> sint (maxSize example_cache)"
    by (simp add: example_cache_def NewCache_def)
  have acc: "accepts (objects example_cache) (length [1, 2, 3 :: byte])"
    by (simp add: example_cache_def NewCache_def accepts_def)
  have trim: "TrimSpace ''AQI='' = ''AQI=''"
    by (simp add: TrimSpace_def isSpace1_def isSpace2_def isSpace3_def)
  have supplied: "TrimSpace ''AQI='' \<noteq> []" using trim by simp
  have dec: "base64_DecodeString example_externals (TrimSpace ''AQI='') = Some [1, 2]"
    using trim example_base64_AQI by (simp add: example_externals_def)
  have ne: "[1, 2 :: byte] \<noteq> []" by simp
  have differ: "[1, 2] \<noteq> md5_Sum example_externals [1, 2, 3]"
    by (simp add: example_externals_def example_digest_def)
  show ?thesis
    using CreateObject_digest_mismatch [OF vb vk sb fresh nd small acc supplied dec ne differ,
        of 0 "[]"]
      vb vk sb fresh nd small acc supplied dec ne differ
    by blast
qed

text \<open>
  C3 as it was claimed, without a bound on the declared size, fails: with a declared size
  of 100001 against a maximum of 100000, the call with the mismatching digest \<open>AQI=\<close> fails
  with \<open>EntityTooLarge\<close>, not with \<open>BadDigest\<close>; nothing is read from the reader.
\<close>

theorem CreateObject_digest_mismatch_too_large:
  "TrimSpace ''AQI='' \<noteq> []
   \<and> base64_DecodeString example_externals (TrimSpace ''AQI='') = Some [1, 2]
   \<and> [1, 2] \<noteq> md5_Sum example_externals []
   \<and> [1, 2] \<noteq> md5_Sum example_externals [1, 2, 3]
   \<and> CreateObject example_externals 0 example_cache ''foo'' ''obj'' [] ''AQI='' 100001 [1, 2, 3]
       = (Inl (EntityTooLarge ''foo'' ''obj'' 100001 100000), example_cache, [1, 2, 3])"
proof -
  have trim: "TrimSpace ''AQI='' = ''AQI=''"
    by (simp add: TrimSpace_def isSpace1_def isSpace2_def isSpace3_def)
  have dec: "base64_DecodeString example_externals (TrimSpace ''AQI='') = Some [1, 2]"
    using trim example_base64_AQI by (simp add: example_externals_def)
  have differ: "[1, 2] \<noteq> md5_Sum example_externals []"
    and differ': "[1, 2] \<noteq> md5_Sum example_externals [1, 2, 3]"
    by (simp_all add: example_externals_def example_digest_def)
  have big: "CreateObject example_externals 0 example_cache ''foo'' ''obj'' [] ''AQI='' 100001 [1, 2, 3]
       = (Inl (EntityTooLarge ''foo'' ''obj'' 100001 100000), example_cache, [1, 2, 3])"
    by (simp add: CreateObject_def example_cache_def NewCache_def)
  show ?thesis using trim dec differ differ' big by simp
qed

subsection \<open>A key that exists already\<close>

text \<open>
  C10, as amended. For valid names and a bucket that has metadata under the key,
  \<open>createObject\<close> fails with \<open>ObjectExists\<close>, with the cache and the reader as they were.
  The exported \<open>CreateObject\<close> does the same when the declared size is not above the
  configured maximum, and fails with \<open>EntityTooLarge\<close> when it is, also with the cache and
  the reader as they were: that test comes first.
\<close>

theorem CreateObject_existing_key:
  assumes "IsValidBucket x bucket" "IsValidObjectName x key"
    and "map_of (storedBuckets cache) bucket = Some sb"
    and "map_of (objectMetadata sb) (bucket @ ''/'' @ key) = Some m"
  shows "createObject x now cache bucket key contentType expectedMD5Sum size' data
           = (Inl (ObjectExists key), cache, data)
       \<and> CreateObject x now cache bucket key contentType expectedMD5Sum size' data
           = (if size' > sint (maxSize cache)
              then (Inl (EntityTooLarge bucket key size' (maxSize cache)), cache, data)
              else (Inl (ObjectExists key), cache, data))"
  using assms by (simp add: CreateObject_def createObject_def Let_def)

text \<open>
  The theorem at the object \<open>foo/obj\<close> of the example cache and a declared size of 2.
\<close>

theorem CreateObject_existing_key_witness:
  "IsValidBucket example_externals ''foo'' \<and> IsValidObjectName example_externals ''obj''
   \<and> map_of (storedBuckets example_cache_obj) ''foo''
       = Some (example_bucket ''foo'' [(''foo/obj'', example_object ''foo'' ''obj'' [1, 2, 3])])
   \<and> map_of (objectMetadata
         (example_bucket ''foo'' [(''foo/obj'', example_object ''foo'' ''obj'' [1, 2, 3])]))
         (''foo'' @ ''/'' @ ''obj'') = Some (example_object ''foo'' ''obj'' [1, 2, 3])
   \<and> createObject example_externals 0 example_cache_obj ''foo'' ''obj'' [] [] 2 [7, 8]
       = (Inl (ObjectExists ''obj''), example_cache_obj, [7, 8])
   \<and> CreateObject example_externals 0 example_cache_obj ''foo'' ''obj'' [] [] 2 [7, 8]
       = (Inl (ObjectExists ''obj''), example_cache_obj, [7, 8])"
proof -
  have vb: "IsValidBucket example_externals ''foo''" by (simp add: example_externals_def)
  have vk: "IsValidObjectName example_externals ''obj''"
    by (simp add: example_externals_def TrimSpace_def isSpace1_def isSpace2_def isSpace3_def)
  have sb: "map_of (storedBuckets example_cache_obj) ''foo''
       = Some (example_bucket ''foo'' [(''foo/obj'', example_object ''foo'' ''obj'' [1, 2, 3])])"
    by (simp add: example_cache_obj_def)
  have ex: "map_of (objectMetadata
         (example_bucket ''foo'' [(''foo/obj'', example_object ''foo'' ''obj'' [1, 2, 3])]))
         (''foo'' @ ''/'' @ ''obj'') = Some (example_object ''foo'' ''obj'' [1, 2, 3])"
    by (simp add: example_bucket_def)
  have small: "\<not> 2 > sint (maxSize example_cache_obj)"
    by (simp add: example_cache_obj_def NewCache_def)
  show ?thesis
    using CreateObject_existing_key [OF vb vk sb ex, of 0 "[]" "[]" 2 "[7, 8]"] vb vk sb ex small
    by simp
qed

text \<open>
  C10 as it was claimed, for every call of \<open>CreateObject\<close> on an existing key, fails: with a
  declared size of 100001 against a maximum of 100000 the error is \<open>EntityTooLarge\<close>.
\<close>

theorem CreateObject_existing_key_too_large:
  "objectRecorded example_cache_obj ''foo'' ''foo/obj''
   \<and> CreateObject example_externals 0 example_cache_obj ''foo'' ''obj'' [] [] 100001 [7, 8]
       = (Inl (EntityTooLarge ''foo'' ''obj'' 100001 100000), example_cache_obj, [7, 8])"
  by (simp add: CreateObject_def objectRecorded_def example_cache_obj_def example_bucket_def
      NewCache_def)

subsection \<open>Ranges of a cached object\<close>

lemma CopyN_slice:
  assumes "0 \<le> n" "n \<le> int (length src)"
  shows "CopyN buffer_Write w src n = (n, None, w @ take (nat n) src, drop (nat n) src)"
  using assms by (simp add: CopyN_def buffer_Write_def)

text \<open>
  C4, as amended. For valid names: a negative \<open>start\<close> fails with \<open>InvalidRange\<close>; and when
  the bytes of the object are in the cache, \<open>0 \<le> start\<close>, \<open>0 \<le> length\<close> and
  \<open>start + length \<le> N\<close>, the call writes exactly \<open>bytes[start:start+length]\<close> to \<open>w\<close> and
  returns \<open>length\<close>, leaving the cache as it was. The bytes written are the value of the
  slice expression as Go reads it (\<open>go_slice\<close>).
\<close>

theorem GetPartialObject_range:
  assumes vb: "IsValidBucket x bucket" and vk: "IsValidObjectName x object"
  shows "(start < 0 \<longrightarrow>
            GetPartialObject x cache w bucket object start length'
              = (Inl (InvalidRange start length'), w, cache))
       \<and> (\<forall>data.
            trove_Get (objects cache) (bucket @ ''/'' @ object) = Some data
            \<and> 0 \<le> start \<and> 0 \<le> length' \<and> start + length' \<le> int (length data)
            \<longrightarrow> GetPartialObject x cache w bucket object start length'
                  = (Inr length', w @ take (nat length') (drop (nat start) data), cache)
                \<and> go_slice data start (start + length')
                  = Some (take (nat length') (drop (nat start) data)))"
proof (intro conjI impI allI)
  assume "start < 0"
  then show "GetPartialObject x cache w bucket object start length'
      = (Inl (InvalidRange start length'), w, cache)"
    using vb vk by (simp add: GetPartialObject_def)
next
  fix data
  assume a: "trove_Get (objects cache) (bucket @ ''/'' @ object) = Some data
            \<and> 0 \<le> start \<and> 0 \<le> length' \<and> start + length' \<le> int (length data)"
  then have res: "trove_Get (objects cache) (bucket @ ''/'' @ object) = Some data"
    and s0: "0 \<le> start" and l0: "0 \<le> length'"
    and le: "start + length' \<le> int (length data)" by simp_all
  have fits: "length' \<le> int (length (drop (nat start) data))" using s0 le by simp
  have cp: "CopyN buffer_Write w (drop (nat start) data) length'
      = (length', None, w @ take (nat length') (drop (nat start) data),
         drop (nat length') (drop (nat start) data))"
    by (rule CopyN_slice [OF l0 fits])
  have inb: "\<not> start > int (length data)" using le l0 by simp
  show "GetPartialObject x cache w bucket object start length'
      = (Inr length', w @ take (nat length') (drop (nat start) data), cache)"
    using vb vk s0 res inb cp by (simp add: GetPartialObject_def Let_def)
next
  fix data
  assume a: "trove_Get (objects cache) (bucket @ ''/'' @ object) = Some data
            \<and> 0 \<le> start \<and> 0 \<le> length' \<and> start + length' \<le> int (length data)"
  then show "go_slice data start (start + length')
      = Some (take (nat length') (drop (nat start) data))"
    by (simp add: go_slice_def)
qed

text \<open>
  The theorem at the three bytes of \<open>foo/obj\<close>: the range 1, 2 and the start -1.
\<close>

theorem GetPartialObject_range_witness:
  "IsValidBucket example_externals ''foo'' \<and> IsValidObjectName example_externals ''obj''
   \<and> trove_Get (objects example_cache_obj) (''foo'' @ ''/'' @ ''obj'') = Some [1, 2, 3]
   \<and> (0::int) \<le> 1 \<and> (0::int) \<le> 2 \<and> (1::int) + 2 \<le> int (length [1, 2, 3 :: byte])
   \<and> GetPartialObject example_externals example_cache_obj [9] ''foo'' ''obj'' 1 2
       = (Inr 2, [9] @ take (nat 2) (drop (nat 1) [1, 2, 3]), example_cache_obj)
   \<and> go_slice [1, 2, 3] 1 (1 + 2) = Some (take (nat 2) (drop (nat 1) [1, 2, 3]))
   \<and> take (nat 2) (drop (nat 1) [1, 2, 3 :: byte]) = [2, 3]
   \<and> (-1::int) < 0
   \<and> GetPartialObject example_externals example_cache_obj [9] ''foo'' ''obj'' (-1) 2
       = (Inl (InvalidRange (-1) 2), [9], example_cache_obj)"
proof -
  have vb: "IsValidBucket example_externals ''foo''" by (simp add: example_externals_def)
  have vk: "IsValidObjectName example_externals ''obj''"
    by (simp add: example_externals_def TrimSpace_def isSpace1_def isSpace2_def isSpace3_def)
  have res: "trove_Get (objects example_cache_obj) (''foo'' @ ''/'' @ ''obj'') = Some [1, 2, 3]"
    by (simp add: example_cache_obj_def trove_Get_def)
  have ar: "(0::int) \<le> 1 \<and> (0::int) \<le> 2 \<and> (1::int) + 2 \<le> int (length [1, 2, 3 :: byte])"
    by simp
  have hit: "GetPartialObject example_externals example_cache_obj [9] ''foo'' ''obj'' 1 2
       = (Inr 2, [9] @ take (nat 2) (drop (nat 1) [1, 2, 3]), example_cache_obj)
     \<and> go_slice [1, 2, 3] 1 (1 + 2) = Some (take (nat 2) (drop (nat 1) [1, 2, 3]))"
    using GetPartialObject_range [OF vb vk, of 1 example_cache_obj "[9]" 2] res ar by blast
  have val: "take (nat 2) (drop (nat 1) [1, 2, 3 :: byte]) = [2, 3]"
    by (simp add: numeral_2_eq_2)
  have neg: "GetPartialObject example_externals example_cache_obj [9] ''foo'' ''obj'' (-1) 2
       = (Inl (InvalidRange (-1) 2), [9], example_cache_obj)"
    using GetPartialObject_range [OF vb vk, of "-1" example_cache_obj "[9]" 2] by simp
  show ?thesis using vb vk res ar hit val neg by simp
qed

text \<open>
  For a negative length within the object, nothing is written and 0 is returned; a start
  beyond the end of the object panics at \<open>data[start:]\<close>.
\<close>

lemma GetPartialObject_negative_length:
  assumes "IsValidBucket x bucket" "IsValidObjectName x object"
    and "trove_Get (objects cache) (bucket @ ''/'' @ object) = Some data"
    and "0 \<le> start" "start \<le> int (length data)" "length' < 0"
  shows "GetPartialObject x cache w bucket object start length' = (Inr 0, w, cache)"
  using assms by (simp add: GetPartialObject_def Let_def CopyN_def)

text \<open>
  C4 as it was claimed, for every \<open>start\<close> and \<open>length\<close> with \<open>0 \<le> start\<close> and
  \<open>start + length \<le> N\<close>, fails for a negative \<open>length\<close>. On the three bytes of \<open>foo/obj\<close>,
  \<open>start = 1\<close> and \<open>length = -1\<close> are in that domain: the call writes nothing and returns
  0, not \<open>length\<close>. So are \<open>start = 5\<close> and \<open>length = -2\<close>: the call panics.
\<close>

theorem GetPartialObject_negative_length_in_domain:
  "trove_Get (objects example_cache_obj) ''foo/obj'' = Some [1, 2, 3]
   \<and> (0::int) \<le> 1 \<and> (1::int) + (-1) \<le> int (length [1, 2, 3 :: byte])
   \<and> GetPartialObject example_externals example_cache_obj [9] ''foo'' ''obj'' 1 (-1)
       = (Inr 0, [9], example_cache_obj)
   \<and> (0::int) \<noteq> -1
   \<and> (0::int) \<le> 5 \<and> (5::int) + (-2) \<le> int (length [1, 2, 3 :: byte])
   \<and> GetPartialObject example_externals example_cache_obj [9] ''foo'' ''obj'' 5 (-2)
       = (Inl PanicSliceBounds, [9], example_cache_obj)"
  by (simp add: GetPartialObject_def CopyN_def trove_Get_def example_cache_obj_def
      example_externals_def TrimSpace_def isSpace1_def isSpace2_def isSpace3_def Let_def)

subsection \<open>Filling the cache from the backend\<close>

lemma trove_Set_hasRoom:
  assumes "hasRoom t (length v)"
  shows "trove_Set t key v = (True, t\<lparr>items := AList.update key v (items t)\<rparr>, [])"
proof -
  have "\<not> (trove_maxSize t > 0 \<and> length v > trove_maxSize t)"
    using assms by (auto simp: hasRoom_def)
  then show ?thesis
    using trove_makeRoom_hasRoom [OF assms] by (simp add: trove_Set_def)
qed

lemma CopyN_proxyWriter:
  assumes "0 \<le> n" "n \<le> int (length src)"
  shows "CopyN proxyWriter_Write (newProxyWriter w) src n
           = (n, None, \<lparr>writer = w @ take (nat n) src, writtenBytes = take (nat n) src\<rparr>,
              drop (nat n) src)"
  using assms by (simp add: CopyN_def proxyWriter_Write_def newProxyWriter_def buffer_Write_def)

text \<open>
  \<open>GetObject\<close> on a miss with a backend: when the backend delivers at least the \<open>n\<close> bytes
  it announces and they fit into the byte cache, they are written to \<open>w\<close> and the same
  bytes are the cache entry afterwards.
\<close>

lemma GetObject_miss_caches_what_was_read:
  assumes vb: "IsValidBucket x bucket" and vk: "IsValidObjectName x object"
    and sb: "map_of (storedBuckets cache) bucket \<noteq> None"
    and miss: "trove_Get (objects cache) (bucket @ ''/'' @ object) = None"
    and d: "donut cache = Some d"
    and got: "donut_GetObject d bucket object = Inr (content, n)"
    and n: "0 \<le> n" "n \<le> int (length content)"
    and room: "hasRoom (objects cache) (nat n)"
  shows "\<exists>cache'. GetObject x cache w bucket object = (Inr n, w @ take (nat n) content, cache')
           \<and> trove_Get (objects cache') (bucket @ ''/'' @ object) = Some (take (nat n) content)"
proof -
  have len: "length (take (nat n) content) = nat n" using n by simp
  have set: "objects_Set cache (bucket @ ''/'' @ object) (take (nat n) content)
      = (True, cache\<lparr>objects := (objects cache)\<lparr>items :=
           AList.update (bucket @ ''/'' @ object) (take (nat n) content) (items (objects cache))\<rparr>\<rparr>)"
    using trove_Set_hasRoom [of "objects cache" "take (nat n) content"] room len
    by (simp add: objects_Set_def)
  have "GetObject x cache w bucket object
      = (Inr n, w @ take (nat n) content,
         cache\<lparr>objects := (objects cache)\<lparr>items :=
           AList.update (bucket @ ''/'' @ object) (take (nat n) content) (items (objects cache))\<rparr>\<rparr>)"
    using vb vk sb miss d got set CopyN_proxyWriter [OF n, of w]
    by (simp add: GetObject_def Let_def)
  then show ?thesis by (simp add: trove_Get_def update_conv')
qed

text \<open>
  C5. Claimed: for \<open>GetObject\<close> and \<open>GetPartialObject\<close> alike, after a successful call on a
  miss with a backend the cache entry is the bytes read from the backend in that call.
  For \<open>GetObject\<close> this is the lemma above. \<open>GetPartialObject\<close> copies to \<open>w\<close> and not to
  its proxy writer, whose buffer stays empty: with the backend holding the bytes 1 to 5
  under \<open>foo/obj\<close>, the range 1, 3 writes 2, 3, 4 to \<open>w\<close> and returns 3, the cache entry
  is then the empty byte sequence, and a following \<open>GetObject\<close> is a hit that writes
  nothing and returns 0.
\<close>

theorem GetPartialObject_miss_caches_nothing:
  "fst (GetPartialObject example_externals example_cache_backed [] ''foo'' ''obj'' 1 3) = Inr 3
   \<and> fst (snd (GetPartialObject example_externals example_cache_backed [] ''foo'' ''obj'' 1 3))
       = [2, 3, 4]
   \<and> trove_Get
       (objects (snd (snd (GetPartialObject example_externals example_cache_backed [] ''foo'' ''obj'' 1 3))))
       ''foo/obj'' = Some []
   \<and> fst (GetObject example_externals
         (snd (snd (GetPartialObject example_externals example_cache_backed [] ''foo'' ''obj'' 1 3)))
         [] ''foo'' ''obj'') = Inr 0
   \<and> fst (snd (GetObject example_externals
         (snd (snd (GetPartialObject example_externals example_cache_backed [] ''foo'' ''obj'' 1 3)))
         [] ''foo'' ''obj'')) = []"
  by (simp add: GetPartialObject_def GetObject_def CopyN_def buffer_Write_def newProxyWriter_def
      objects_Set_def trove_Set_def trove_makeRoom_def trove_currentSize_def trove_Get_def
      trove_Len_def example_cache_backed_def example_cache_def example_bucket_def NewCache_def
      example_donut_def example_externals_def TrimSpace_def isSpace1_def isSpace2_def
      isSpace3_def Let_def)

subsection \<open>Making and listing buckets\<close>

lemma update_fresh: "map_of al k = None \<Longrightarrow> AList.update k v al = al @ [(k, v)]"
  by (induction al) (auto split: if_splits)

lemma MakeBucket_new:
  assumes vb: "IsValidBucket x bucketName" and va: "IsValidBucketACL x acl"
    and fresh: "map_of (storedBuckets cache) bucketName = None"
    and fewer: "length (storedBuckets cache) < totalBuckets"
    and backend: "donut cache = None
        \<or> (\<exists>d. donut cache = Some d
              \<and> donut_MakeBucket d bucketName (if TrimSpace acl = [] then ''private'' else acl) = None)"
  shows "MakeBucket x now cache bucketName acl =
           (None,
            cache\<lparr>storedBuckets := storedBuckets cache @
              [(bucketName,
                \<lparr>bucketMetadata =
                   \<lparr>Name = bucketName, BucketMetadata.Created = now,
                    ACL = (if TrimSpace acl = [] then ''private'' else acl)\<rparr>,
                 objectMetadata = [], partMetadata = [], multiPartSession = []\<rparr>)]\<rparr>)"
proof -
  have ne: "length (storedBuckets cache) \<noteq> totalBuckets" using fewer by simp
  from backend show ?thesis
  proof
    assume "donut cache = None"
    then show ?thesis
      using vb va fresh ne by (simp add: MakeBucket_def Let_def update_fresh)
  next
    assume "\<exists>d. donut cache = Some d
        \<and> donut_MakeBucket d bucketName (if TrimSpace acl = [] then ''private'' else acl) = None"
    then obtain d where "donut cache = Some d"
      and "donut_MakeBucket d bucketName (if TrimSpace acl = [] then ''private'' else acl) = None"
      by blast
    then show ?thesis
      using vb va fresh ne by (simp add: MakeBucket_def Let_def update_fresh)
  qed
qed

lemma MakeBucket_again:
  assumes "IsValidBucket x bucketName" "IsValidBucketACL x acl"
    and "map_of (storedBuckets cache) bucketName \<noteq> None"
  shows "MakeBucket x now cache bucketName acl =
           (Some (if length (storedBuckets cache) = totalBuckets
                  then TooManyBuckets bucketName else BucketExists bucketName), cache)"
  using assms by (auto simp: MakeBucket_def)

lemma ListBuckets_count:
  "ListBuckets cache = Inr buckets \<Longrightarrow>
   length (filter (\<lambda>m. Name m = n) buckets)
     = length (filter (\<lambda>nb. Name (bucketMetadata (snd nb)) = n) (storedBuckets cache))"
proof -
  assume "ListBuckets cache = Inr buckets"
  then have b: "buckets = sort_key Name (map (\<lambda>nb. bucketMetadata (snd nb)) (storedBuckets cache))"
    by (simp add: ListBuckets_def)
  have "length (filter (\<lambda>m. Name m = n) buckets)
      = length (filter (\<lambda>m. Name m = n) (map (\<lambda>nb. bucketMetadata (snd nb)) (storedBuckets cache)))"
    unfolding b by (simp add: filter_sort)
  also have "\<dots> = length (filter (\<lambda>nb. Name (bucketMetadata (snd nb)) = n) (storedBuckets cache))"
    by (simp add: filter_map comp_def)
  finally show ?thesis .
qed

lemma wellFormed_no_name:
  assumes "bucketsWellFormed cache" "map_of (storedBuckets cache) n = None"
  shows "filter (\<lambda>nb. Name (bucketMetadata (snd nb)) = n) (storedBuckets cache) = []"
proof -
  have "n \<notin> fst ` set (storedBuckets cache)"
    using assms(2) by (simp add: map_of_eq_None_iff)
  moreover have "\<forall>nb \<in> set (storedBuckets cache). Name (bucketMetadata (snd nb)) = fst nb"
    using assms(1) by (simp add: bucketsWellFormed_def list_all_iff)
  ultimately show ?thesis by (auto simp: filter_empty_conv)
qed

text \<open>
  C8, as amended. For a well-formed cache with fewer than 100 buckets, a valid name that
  is not stored yet and a valid ACL, with no backend or a backend whose \<open>MakeBucket\<close>
  succeeds: \<open>MakeBucket\<close> succeeds, the cache stays well formed, \<open>ListBuckets\<close> then holds
  the name exactly once, and a second \<open>MakeBucket\<close> of the name fails with \<open>BucketExists\<close>,
  unless the first call was made with 99 buckets stored: then it fails with
  \<open>TooManyBuckets\<close>, the count being tested before the name.
\<close>

theorem MakeBucket_then_ListBuckets:
  assumes wf: "bucketsWellFormed cache"
    and vb: "IsValidBucket x bucketName" and va: "IsValidBucketACL x acl"
    and fresh: "map_of (storedBuckets cache) bucketName = None"
    and fewer: "length (storedBuckets cache) < totalBuckets"
    and backend: "donut cache = None
        \<or> (\<exists>d. donut cache = Some d
              \<and> donut_MakeBucket d bucketName (if TrimSpace acl = [] then ''private'' else acl) = None)"
  shows "\<exists>cache'.
           MakeBucket x now cache bucketName acl = (None, cache')
         \<and> bucketsWellFormed cache'
         \<and> (\<exists>buckets. ListBuckets cache' = Inr buckets
                \<and> length (filter (\<lambda>m. Name m = bucketName) buckets) = 1)
         \<and> MakeBucket x now' cache' bucketName acl
             = (Some (if length (storedBuckets cache) = 99 then TooManyBuckets bucketName
                      else BucketExists bucketName), cache')"
proof -
  define nb where "nb =
     \<lparr>bucketMetadata =
        \<lparr>Name = bucketName, BucketMetadata.Created = now,
         ACL = (if TrimSpace acl = [] then ''private'' else acl)\<rparr>,
      objectMetadata = [], partMetadata = [], multiPartSession = []\<rparr>"
  define cache' where "cache' = cache\<lparr>storedBuckets := storedBuckets cache @ [(bucketName, nb)]\<rparr>"
  have made: "MakeBucket x now cache bucketName acl = (None, cache')"
    using MakeBucket_new [OF vb va fresh fewer backend, of now] by (simp add: cache'_def nb_def)
  have notin: "bucketName \<notin> fst ` set (storedBuckets cache)"
    using fresh by (simp add: map_of_eq_None_iff)
  have wf': "bucketsWellFormed cache'"
    using wf notin by (simp add: bucketsWellFormed_def cache'_def nb_def)
  have none: "filter (\<lambda>nb. Name (bucketMetadata (snd nb)) = bucketName) (storedBuckets cache) = []"
    by (rule wellFormed_no_name [OF wf fresh])
  have once: "length (filter (\<lambda>nb. Name (bucketMetadata (snd nb)) = bucketName) (storedBuckets cache')) = 1"
    using none by (simp add: cache'_def nb_def)
  obtain buckets where lb: "ListBuckets cache' = Inr buckets" by (simp add: ListBuckets_def)
  have count: "length (filter (\<lambda>m. Name m = bucketName) buckets) = 1"
    using ListBuckets_count [OF lb, of bucketName] once by simp
  have there: "map_of (storedBuckets cache') bucketName \<noteq> None"
    by (simp add: cache'_def map_of_eq_None_iff image_Un)
  have again: "MakeBucket x now' cache' bucketName acl
      = (Some (if length (storedBuckets cache) = 99 then TooManyBuckets bucketName
               else BucketExists bucketName), cache')"
    using MakeBucket_again [OF vb va there, of now']
    by (simp add: cache'_def totalBuckets_def)
  show ?thesis using made wf' lb count again by blast
qed

text \<open>
  The theorem at the new bucket \<open>bar\<close> in the example cache, which holds \<open>foo\<close>.
\<close>

theorem MakeBucket_then_ListBuckets_witness:
  "bucketsWellFormed example_cache
   \<and> IsValidBucket example_externals ''bar'' \<and> IsValidBucketACL example_externals ''private''
   \<and> map_of (storedBuckets example_cache) ''bar'' = None
   \<and> length (storedBuckets example_cache) < totalBuckets
   \<and> donut example_cache = None
   \<and> (\<exists>cache'.
         MakeBucket example_externals 0 example_cache ''bar'' ''private'' = (None, cache')
       \<and> bucketsWellFormed cache'
       \<and> (\<exists>buckets. ListBuckets cache' = Inr buckets
              \<and> length (filter (\<lambda>m. Name m = ''bar'') buckets) = 1)
       \<and> MakeBucket example_externals 1 cache' ''bar'' ''private''
           = (Some (if length (storedBuckets example_cache) = 99 then TooManyBuckets ''bar''
                    else BucketExists ''bar''), cache'))"
proof -
  have wf: "bucketsWellFormed example_cache"
    by (simp add: bucketsWellFormed_def example_cache_def example_bucket_def)
  have vb: "IsValidBucket example_externals ''bar''" by (simp add: example_externals_def)
  have va: "IsValidBucketACL example_externals ''private''" by (simp add: example_externals_def)
  have fresh: "map_of (storedBuckets example_cache) ''bar'' = None"
    by (simp add: example_cache_def)
  have fewer: "length (storedBuckets example_cache) < totalBuckets"
    by (simp add: example_cache_def totalBuckets_def)
  have nd: "donut example_cache = None" by (simp add: example_cache_def NewCache_def)
  have backend: "donut example_cache = None
        \<or> (\<exists>d. donut example_cache = Some d
              \<and> donut_MakeBucket d ''bar'' (if TrimSpace ''private'' = [] then ''private'' else ''private'') = None)"
    using nd by simp
  show ?thesis
    using MakeBucket_then_ListBuckets [OF wf vb va fresh fewer backend, of 0 1]
      wf vb va fresh fewer nd
    by blast
qed

lemma example_name_differs: "example_name n \<noteq> ''newbucket''"
  by (simp add: example_name_def)

lemma example_cache_99_fresh: "map_of (storedBuckets example_cache_99) ''newbucket'' = None"
proof -
  have "''newbucket'' \<notin> example_name ` set [0..<99]"
    using example_name_differs by (metis imageE)
  then show ?thesis
    by (simp add: example_cache_99_def map_of_eq_None_iff image_image del: upt_Suc set_upt)
qed

lemma example_name_inj:
  assumes "n < 100" "m < 100" "example_name n = example_name m"
  shows "n = m"
proof -
  have d: "distinct ''0123456789''" by simp
  have l: "length ''0123456789'' = 10" by simp
  from assms(3) have a: "''0123456789'' ! (n div 10) = ''0123456789'' ! (m div 10)"
    and b: "''0123456789'' ! (n mod 10) = ''0123456789'' ! (m mod 10)"
    by (simp_all add: example_name_def)
  have "n div 10 < 10" "m div 10 < 10" using assms(1,2) by simp_all
  then have dv: "n div 10 = m div 10"
    using a d l nth_eq_iff_index_eq [OF d, of "n div 10" "m div 10"] by simp
  have "n mod 10 < 10" "m mod 10 < 10" by simp_all
  then have md: "n mod 10 = m mod 10"
    using b d l nth_eq_iff_index_eq [OF d, of "n mod 10" "m mod 10"] by simp
  show ?thesis using dv md by (metis div_mult_mod_eq)
qed

lemma example_cache_99_wellFormed: "bucketsWellFormed example_cache_99"
proof -
  have "inj_on example_name (set [0..<99])"
    by (rule inj_onI) (simp add: example_name_inj)
  then have "distinct (map example_name [0..<99])"
    by (simp add: distinct_map del: upt_Suc set_upt)
  then show ?thesis
    by (simp add: bucketsWellFormed_def example_cache_99_def comp_def list_all_iff
        example_bucket_def del: upt_Suc)
qed

text \<open>
  C8 as it was claimed fails with 99 buckets stored: the first \<open>MakeBucket\<close> of
  \<open>newbucket\<close> succeeds, the second fails with \<open>TooManyBuckets\<close>, not with \<open>BucketExists\<close>.
\<close>

theorem MakeBucket_second_call_at_ceiling:
  "bucketsWellFormed example_cache_99
   \<and> length (storedBuckets example_cache_99) < totalBuckets
   \<and> map_of (storedBuckets example_cache_99) ''newbucket'' = None
   \<and> fst (MakeBucket example_externals 0 example_cache_99 ''newbucket'' ''private'') = None
   \<and> fst (MakeBucket example_externals 1
            (snd (MakeBucket example_externals 0 example_cache_99 ''newbucket'' ''private''))
            ''newbucket'' ''private'') = Some (TooManyBuckets ''newbucket'')"
proof -
  have vb: "IsValidBucket example_externals ''newbucket''" by (simp add: example_externals_def)
  have va: "IsValidBucketACL example_externals ''private''" by (simp add: example_externals_def)
  have len: "length (storedBuckets example_cache_99) = 99"
    by (simp add: example_cache_99_def del: upt_Suc)
  have fewer: "length (storedBuckets example_cache_99) < totalBuckets"
    using len by (simp add: totalBuckets_def)
  have nd: "donut example_cache_99 = None" by (simp add: example_cache_99_def NewCache_def)
  note first = MakeBucket_new [OF vb va example_cache_99_fresh fewer disjI1 [OF nd], of 0]
  have there: "map_of (storedBuckets (snd (MakeBucket example_externals 0 example_cache_99
      ''newbucket'' ''private''))) ''newbucket'' \<noteq> None"
    unfolding first by (simp add: map_of_eq_None_iff image_Un)
  have len': "length (storedBuckets (snd (MakeBucket example_externals 0 example_cache_99
      ''newbucket'' ''private''))) = totalBuckets"
    unfolding first using len by (simp add: totalBuckets_def)
  show ?thesis
    using example_cache_99_wellFormed fewer example_cache_99_fresh first
      MakeBucket_again [OF vb va there, of 1] len'
    by simp
qed

subsection \<open>Listing objects with a prefix and a delimiter\<close>

lemma TrimSpace_o: "TrimSpace ''o'' = ''o''"
  by (simp add: TrimSpace_def isSpace1_def)

lemma TrimSpace_1: "TrimSpace ''1'' = ''1''"
  by (simp add: TrimSpace_def isSpace1_def)

text \<open>
  C2, as amended. For a bucket without backend whose objects are exactly \<open>obj1\<close> and
  \<open>obj2\<close>, in either order of the map, \<open>ListObjects\<close> with prefix \<open>o\<close>, delimiter \<open>1\<close>, no
  marker, at least 2 as \<open>Maxkeys\<close> and no common prefixes passed in returns the common
  prefixes \<open>obj1\<close> alone, and lists one object, \<open>obj2\<close>, which has no delimiter in it; the
  other fields of the resources are returned as they came.
\<close>

theorem ListObjects_prefix_delimiter:
  assumes vb: "IsValidBucket x bucket" and vp: "IsValidPrefix x ''o''"
    and sb: "map_of (storedBuckets cache) bucket = Some sb"
    and nd: "donut cache = None"
    and objs: "objectMetadata sb = [(bucket @ ''/obj1'', m1), (bucket @ ''/obj2'', m2)]
               \<or> objectMetadata sb = [(bucket @ ''/obj2'', m2), (bucket @ ''/obj1'', m1)]"
    and res: "Prefix resources = ''o''" "Delimiter resources = ''1''" "Marker resources = []"
      "2 \<le> Maxkeys resources" "CommonPrefixes resources = []"
  shows "ListObjects x cache bucket resources
           = Inr ([m2], resources\<lparr>CommonPrefixes := [''obj1'']\<rparr>)"
proof -
  have keys: "candidateKeys sb bucket resources = [''obj1'', ''obj2'']
      \<or> candidateKeys sb bucket resources = [''obj2'', ''obj1'']"
    using objs res by (auto simp: candidateKeys_def HasPrefix_def)
  have at: "objectMetadata_at sb (bucket @ ''/'' @ ''o'' @ ''bj2'') = m2"
    using objs by (auto simp: objectMetadata_at_def)
  have mk: "int (length ([] :: ObjectMetadata list)) \<noteq> Maxkeys resources" using res by simp
  from keys show ?thesis
  proof
    assume k: "candidateKeys sb bucket resources = [''obj1'', ''obj2'']"
    show ?thesis
      using vb vp sb nd res at mk
      by (simp add: ListObjects_def Let_def k TrimSpace_o TrimSpace_1 TrimPrefix_def
          HasPrefix_def HasDelimiter_def HasNoDelimiter_def SplitDelimiter_def SortU_def
          RemoveDuplicates_def)
  next
    assume k: "candidateKeys sb bucket resources = [''obj2'', ''obj1'']"
    show ?thesis
      using vb vp sb nd res at mk
      by (simp add: ListObjects_def Let_def k TrimSpace_o TrimSpace_1 TrimPrefix_def
          HasPrefix_def HasDelimiter_def HasNoDelimiter_def SplitDelimiter_def SortU_def
          RemoveDuplicates_def)
  qed
qed

text \<open>
  The theorem at the bucket \<open>foo5\<close> of the test suite.
\<close>

theorem ListObjects_prefix_delimiter_witness:
  "IsValidBucket example_externals ''foo5'' \<and> IsValidPrefix example_externals ''o''
   \<and> map_of (storedBuckets example_cache_listing) ''foo5''
       = Some (example_bucket ''foo5''
                 [(''foo5'' @ ''/obj1'', example_object ''foo5'' ''obj1'' [1]),
                  (''foo5'' @ ''/obj2'', example_object ''foo5'' ''obj2'' [2])])
   \<and> donut example_cache_listing = None
   \<and> Prefix example_resources = ''o'' \<and> Delimiter example_resources = ''1''
   \<and> Marker example_resources = [] \<and> 2 \<le> Maxkeys example_resources
   \<and> CommonPrefixes example_resources = []
   \<and> ListObjects example_externals example_cache_listing ''foo5'' example_resources
       = Inr ([example_object ''foo5'' ''obj2'' [2]],
              example_resources\<lparr>CommonPrefixes := [''obj1'']\<rparr>)"
proof -
  have vb: "IsValidBucket example_externals ''foo5''" by (simp add: example_externals_def)
  have vp: "IsValidPrefix example_externals ''o''" by (simp add: example_externals_def)
  have sb: "map_of (storedBuckets example_cache_listing) ''foo5''
       = Some (example_bucket ''foo5''
                 [(''foo5'' @ ''/obj1'', example_object ''foo5'' ''obj1'' [1]),
                  (''foo5'' @ ''/obj2'', example_object ''foo5'' ''obj2'' [2])])"
    by (simp add: example_cache_listing_def)
  have nd: "donut example_cache_listing = None"
    by (simp add: example_cache_listing_def NewCache_def)
  have objs: "objectMetadata (example_bucket ''foo5''
                 [(''foo5'' @ ''/obj1'', example_object ''foo5'' ''obj1'' [1]),
                  (''foo5'' @ ''/obj2'', example_object ''foo5'' ''obj2'' [2])])
        = [(''foo5'' @ ''/obj1'', example_object ''foo5'' ''obj1'' [1]),
           (''foo5'' @ ''/obj2'', example_object ''foo5'' ''obj2'' [2])]
      \<or> objectMetadata (example_bucket ''foo5''
                 [(''foo5'' @ ''/obj1'', example_object ''foo5'' ''obj1'' [1]),
                  (''foo5'' @ ''/obj2'', example_object ''foo5'' ''obj2'' [2])])
        = [(''foo5'' @ ''/obj2'', example_object ''foo5'' ''obj2'' [2]),
           (''foo5'' @ ''/obj1'', example_object ''foo5'' ''obj1'' [1])]"
    by (simp add: example_bucket_def)
  have res: "Prefix example_resources = ''o''" "Delimiter example_resources = ''1''"
    "Marker example_resources = []" "2 \<le> Maxkeys example_resources"
    "CommonPrefixes example_resources = []"
    by (simp_all add: example_resources_def)
  show ?thesis
    using ListObjects_prefix_delimiter [OF vb vp sb nd objs res] vb vp sb nd res
    by simp
qed

text \<open>
  C2 as it was claimed, with an empty list of objects, fails on the bucket \<open>foo5\<close>: the
  list returned holds \<open>obj2\<close>.
\<close>

theorem ListObjects_lists_obj2:
  "ListObjects example_externals example_cache_listing ''foo5'' example_resources
     = Inr ([example_object ''foo5'' ''obj2'' [2]],
            example_resources\<lparr>CommonPrefixes := [''obj1'']\<rparr>)"
  by (simp add: ListObjects_def candidateKeys_def objectMetadata_at_def HasPrefix_def
      TrimPrefix_def HasDelimiter_def HasNoDelimiter_def SplitDelimiter_def SortU_def
      RemoveDuplicates_def TrimSpace_def isSpace1_def isSpace2_def isSpace3_def
      example_cache_listing_def example_bucket_def example_resources_def example_externals_def
      NewCache_def Let_def)

subsection \<open>Bytes left behind by a failed creation\<close>

text \<open>
  The bytes that a failed \<open>CreateObject\<close> has appended stay in the byte cache: after a
  creation of \<open>foo/obj\<close> that fails with \<open>BadDigest\<close>, a second creation with the bytes 7, 8
  succeeds, and \<open>GetObject\<close> then returns the five bytes 1, 2, 3, 7, 8.
\<close>

lemma CreateObject_appends_to_stale_bytes:
  "fst (CreateObject example_externals 0 example_cache ''foo'' ''obj'' [] ''AQI='' 3 [1, 2, 3])
     = Inl BadDigest
   \<and> fst (CreateObject example_externals 0
        (fst (snd (CreateObject example_externals 0 example_cache ''foo'' ''obj'' [] ''AQI='' 3 [1, 2, 3])))
        ''foo'' ''obj'' [] [] 2 [7, 8])
     = Inr (example_object ''foo'' ''obj'' [7, 8])
   \<and> GetObject example_externals
        (fst (snd (CreateObject example_externals 0
           (fst (snd (CreateObject example_externals 0 example_cache ''foo'' ''obj'' [] ''AQI='' 3 [1, 2, 3])))
           ''foo'' ''obj'' [] [] 2 [7, 8])))
        [] ''foo'' ''obj''
     = (Inr 5, [1, 2, 3, 7, 8],
        fst (snd (CreateObject example_externals 0
           (fst (snd (CreateObject example_externals 0 example_cache ''foo'' ''obj'' [] ''AQI='' 3 [1, 2, 3])))
           ''foo'' ''obj'' [] [] 2 [7, 8])))"
proof -
  have first: "CreateObject example_externals 0 example_cache ''foo'' ''obj'' [] ''AQI='' 3 [1, 2, 3]
      = (Inl BadDigest,
         example_cache\<lparr>objects := \<lparr>items = [(''foo/obj'', [1, 2, 3])], trove_maxSize = 100000\<rparr>\<rparr>,
         [])"
    by (simp add: CreateObject_def createObject_def createObject_loop_hasRoom hasRoom_def
        trove_currentSize_def bytesUnder_def isMD5SumEqual_def example_base64_AQI
        example_cache_def example_bucket_def NewCache_def example_externals_def
        example_digest_def hex_EncodeToString_def hextable_def fromHexChar_def less_eq_char_def
        TrimSpace_def isSpace1_def isSpace2_def isSpace3_def Let_def)
  show ?thesis
    unfolding first
    by (simp add: CreateObject_def createObject_def createObject_loop_hasRoom hasRoom_def
        trove_currentSize_def bytesUnder_def GetObject_def CopyN_def buffer_Write_def
        trove_Get_def trove_Len_def putObjectMetadata_def example_object_def
        example_cache_def example_bucket_def NewCache_def example_externals_def
        example_digest_def hex_EncodeToString_def hextable_def
        TrimSpace_def isSpace1_def isSpace2_def isSpace3_def Let_def)
qed

end
